theory Spec2Isabelle
  imports Main "HOL-Library.Word"
begin

unbundle bit_operations_syntax

section \<open>Data model shared by the kernel module and the user-space library\<close>

type_synonym u32 = "32 word"
type_synonym u64 = "64 word"

text \<open>
  \<^verbatim>\<open>struct GpioIrqEvent { uint64_t timestamp_ns; uint32_t event_counter; uint32_t pin_state; };\<close>
  (RpiFastIrq.hpp, and the kernel module's struct of the same name).
\<close>

record GpioIrqEvent =
  timestamp_ns :: u64
  event_counter :: u32
  pin_state :: u32

text \<open>\<^verbatim>\<open>#define KBUF_SIZE 256\<close>\<close>

definition KBUF_SIZE :: nat where
  "KBUF_SIZE = 256"

text \<open>
  \<^verbatim>\<open>struct SharedRingBuffer { u32 head; u32 tail; struct GpioIrqEvent events[KBUF_SIZE]; };\<close>
  The fixed array is a list; \<open>wf_buf\<close> says that it has its \<open>KBUF_SIZE\<close> slots.
\<close>

record SharedRingBuffer =
  head :: u32
  tail :: u32
  events :: "GpioIrqEvent list"

definition wf_buf :: "SharedRingBuffer \<Rightarrow> bool" where
  "wf_buf b = (length (events b) = KBUF_SIZE)"

section \<open>The zero-copy kernel module (rpi_fast_irq.c, version 2.0)\<close>

text \<open>
  The module's globals \<open>total_interrupts\<close> and \<open>*shared_buf\<close>.
\<close>

record kernel =
  total_interrupts :: u32
  shared_buf :: SharedRingBuffer

text \<open>
  \<open>rpi_fast_irq_init\<close>, on its successful path: \<open>vmalloc_user\<close> hands out zeroed
  memory, and both cursors are set to 0.
\<close>

definition rpi_fast_irq_init :: kernel where
  "rpi_fast_irq_init =
     \<lparr>total_interrupts = 0,
      shared_buf = \<lparr>head = 0, tail = 0,
        events = replicate KBUF_SIZE \<lparr>timestamp_ns = 0, event_counter = 0, pin_state = 0\<rparr>\<rparr>\<rparr>"

text \<open>
  \<open>gpio_isr\<close>: \<open>ts\<close> is what \<open>ktime_get_ns()\<close> returned and \<open>state\<close> what
  \<open>gpio_get_value(GPIO_PIN)\<close> returned. The three field stores into
  \<open>events[current_head % KBUF_SIZE]\<close> are one slot update; then
  \<open>smp_store_release(&shared_buf->head, current_head + 1)\<close>.
  (The copy under kernel_module/ has the read of the pin commented out and still
  stores \<open>state\<close>; its cursor arithmetic is the same.)
\<close>

definition gpio_isr :: "u64 \<Rightarrow> u32 \<Rightarrow> kernel \<Rightarrow> kernel" where
  "gpio_isr ts state k =
     (let total = total_interrupts k + 1;
          b = shared_buf k;
          current_head = head b;
          slot = unat current_head mod KBUF_SIZE;
          evs = (events b)[slot := \<lparr>timestamp_ns = ts, event_counter = total, pin_state = state\<rparr>]
      in k\<lparr>total_interrupts := total,
           shared_buf := b\<lparr>events := evs, head := current_head + 1\<rparr>\<rparr>)"

text \<open>
  \<open>dev_poll\<close>: the mask is \<open>POLLIN | POLLRDNORM\<close> exactly when head and tail differ;
  the result is whether \<open>POLLIN\<close> is set.
\<close>

definition dev_poll :: "kernel \<Rightarrow> bool" where
  "dev_poll k = (head (shared_buf k) \<noteq> tail (shared_buf k))"

text \<open>A run of interrupts, one per \<open>(ts, state)\<close> pair, in order.\<close>

definition isr_run :: "(u64 \<times> u32) list \<Rightarrow> kernel \<Rightarrow> kernel" where
  "isr_run ins k = foldl (\<lambda>k (ts, state). gpio_isr ts state k) k ins"

section \<open>The user-space listener (RpiFastIrq.cpp, version 2.0.0)\<close>

text \<open>
  \<open>IrqCallback = std::function<void(const GpioIrqEvent&)>\<close>: a callback acts on the
  application's state \<open>'s\<close>; an empty \<open>std::function\<close> is \<open>None\<close>.
\<close>

type_synonym 's IrqCallback = "('s \<Rightarrow> GpioIrqEvent \<Rightarrow> 's) option"

text \<open>
  \<^verbatim>\<open>if (m_callback) { m_callback(event_data); }\<close>
\<close>

definition dispatch :: "'s IrqCallback \<Rightarrow> 's \<Rightarrow> GpioIrqEvent \<Rightarrow> 's" where
  "dispatch cb s ev = (case cb of None \<Rightarrow> s | Some f \<Rightarrow> f s ev)"

text \<open>
  The inner loop of \<open>listener_thread_func\<close> (the same text in every mmap variant):
  \<^verbatim>\<open>
  while (local_tail != current_head) {
      GpioIrqEvent event_data = m_shared_buf->events[local_tail % KBUF_SIZE];
      if (m_callback) { m_callback(event_data); }
      local_tail++;
  }\<close>
  It returns the final \<open>local_tail\<close> and the application's state.
\<close>

function drain_loop ::
  "'s IrqCallback \<Rightarrow> GpioIrqEvent list \<Rightarrow> u32 \<Rightarrow> u32 \<Rightarrow> 's \<Rightarrow> u32 \<times> 's" where
  "drain_loop cb evs local_tail current_head s =
     (if local_tail \<noteq> current_head
      then drain_loop cb evs (local_tail + 1) current_head
             (dispatch cb s (evs ! (unat local_tail mod KBUF_SIZE)))
      else (local_tail, s))"
  by pat_completeness auto
termination
proof (relation "measure (\<lambda>(cb, evs, local_tail, current_head, s). unat (current_head - local_tail))")
  show "wf (measure (\<lambda>(cb, evs, local_tail, current_head, s). unat (current_head - local_tail)))"
    by simp
next
  fix cb :: "'s IrqCallback" and evs :: "GpioIrqEvent list"
    and local_tail current_head :: u32 and s :: 's
  assume ne: "local_tail \<noteq> current_head"
  then have nz: "current_head - local_tail \<noteq> 0"
    by simp
  have "current_head - (local_tail + 1) = (current_head - local_tail) - 1"
    by simp
  then have "unat (current_head - (local_tail + 1)) = unat ((current_head - local_tail) - 1)"
    by (rule arg_cong)
  also have "\<dots> = unat (current_head - local_tail) - 1"
    by (rule unat_minus_one [OF nz])
  finally have "unat (current_head - (local_tail + 1)) = unat (current_head - local_tail) - 1" .
  moreover have "0 < unat (current_head - local_tail)"
    using nz by (simp add: unat_gt_0)
  ultimately show "((cb, evs, local_tail + 1, current_head,
        dispatch cb s (evs ! (unat local_tail mod KBUF_SIZE))),
       (cb, evs, local_tail, current_head, s))
      \<in> measure (\<lambda>(cb, evs, local_tail, current_head, s). unat (current_head - local_tail))"
    by simp
qed

declare drain_loop.simps [simp del]

text \<open>
  What \<open>std::cerr\<close> receives, one constructor per message of the library:
  \<open>"[RpiFastIrq] Already running."\<close>, \<open>"[RpiFastIrq] Failed to open device: <path> ..."\<close>,
  \<open>"[RpiFastIrq] mmap failed: ..."\<close>, the \<open>SCHED_FIFO\<close> warning,
  \<open>"[RpiFastIrq] poll() error: ..."\<close>, and the two messages of the read-based variant
  (\<open>"Partial read occurred ... got <n>"\<close>, \<open>"Read failed: ..."\<close>). Colour escapes
  and the \<open>strerror(errno)\<close> text are left out.
\<close>

datatype diag =
    Already_running
  | Open_failed string
  | Mmap_failed
  | Sched_fifo_failed
  | Poll_error
  | Partial_read int
  | Read_failed

datatype open_flags = O_RDONLY | O_RDWR

type_synonym ptr = "64 word"

definition nullptr :: ptr where
  "nullptr = 0"

text \<open>\<open>MAP_FAILED\<close> is \<open>(void *) -1\<close>.\<close>

definition MAP_FAILED :: ptr where
  "MAP_FAILED = - 1"

text \<open>
  The system calls and thread operations a member function performs, in order:
  \<open>::open(path, flags)\<close>, \<open>::close(fd)\<close>, \<open>::mmap(NULL, size, ..., fd, 0)\<close>,
  \<open>::munmap(addr, size)\<close>, the construction of the \<open>std::thread\<close>, \<open>join()\<close>,
  and a write to \<open>std::cerr\<close>.
\<close>

datatype effect =
    Sys_open string open_flags
  | Sys_close int
  | Sys_mmap "64 word" int
  | Sys_munmap ptr "64 word"
  | Thread_spawn
  | Thread_join
  | Cerr diag

text \<open>
  The members of \<open>class RpiFastIrq\<close>. \<open>m_listener_thread\<close> is the thread object's
  \<open>joinable()\<close>.
\<close>

record 's RpiFastIrq =
  m_device_path :: string
  m_fd :: int
  m_shared_buf :: ptr
  m_mmap_size :: "64 word"
  m_running :: bool
  m_callback :: "'s IrqCallback"
  m_listener_thread :: bool

text \<open>
  The constructor: \<open>m_fd(-1), m_shared_buf(nullptr), m_mmap_size(0), m_running(false)\<close>;
  the callback and the thread are default-constructed (empty, not joinable).
\<close>

definition RpiFastIrq_ctor :: "string \<Rightarrow> 's RpiFastIrq" where
  "RpiFastIrq_ctor device_path =
     \<lparr>m_device_path = device_path, m_fd = - 1, m_shared_buf = nullptr, m_mmap_size = 0,
      m_running = False, m_callback = None, m_listener_thread = False\<rparr>"

text \<open>
  What the operating system answers during one call of \<open>start\<close>: the results of
  \<open>::open\<close>, \<open>::sysconf(_SC_PAGESIZE)\<close> and \<open>::mmap\<close>.
\<close>

record start_env =
  open_ret :: int
  page_size :: "64 word"
  mmap_ret :: ptr

text \<open>
  \<open>start\<close>. The copies of the library differ in the flag given to \<open>::open\<close>
  (\<open>O_RDWR\<close> in version 2.0.0, \<open>O_RDONLY\<close> in CountsPerSecond_Plot) and in the header
  that fixes \<open>sizeof(SharedRingBuffer)\<close>; both are parameters here.
  The result is the returned \<open>bool\<close>, the object afterwards, and what was done.
\<close>

definition start_with ::
  "open_flags \<Rightarrow> 64 word \<Rightarrow> 's IrqCallback \<Rightarrow> start_env \<Rightarrow> 's RpiFastIrq
     \<Rightarrow> bool \<times> 's RpiFastIrq \<times> effect list" where
  "start_with flags sizeof_ring user_callback env l =
     (if m_running l then (False, l, [Cerr Already_running])
      else
        let l1 = l\<lparr>m_fd := open_ret env\<rparr>;
            e1 = [Sys_open (m_device_path l) flags]
        in if m_fd l1 < 0
           then (False, l1, e1 @ [Cerr (Open_failed (m_device_path l))])
           else
             let l2 = l1\<lparr>m_mmap_size :=
                        (sizeof_ring + page_size env - 1) AND NOT (page_size env - 1)\<rparr>;
                 l3 = l2\<lparr>m_shared_buf := mmap_ret env\<rparr>;
                 e3 = e1 @ [Sys_mmap (m_mmap_size l2) (m_fd l2)]
             in if m_shared_buf l3 = MAP_FAILED
                then (False, l3\<lparr>m_fd := - 1\<rparr>, e3 @ [Cerr Mmap_failed, Sys_close (m_fd l3)])
                else (True,
                      l3\<lparr>m_callback := user_callback, m_running := True,
                         m_listener_thread := True\<rparr>,
                      e3 @ [Thread_spawn]))"

text \<open>\<open>stop\<close>, the same text in every mmap copy of the library.\<close>

definition stop :: "'s RpiFastIrq \<Rightarrow> 's RpiFastIrq \<times> effect list" where
  "stop l =
     (if \<not> m_running l then (l, [])
      else
        let l1 = l\<lparr>m_running := False\<rparr>;
            (l2, e2) = (if m_listener_thread l1
                        then (l1\<lparr>m_listener_thread := False\<rparr>, [Thread_join])
                        else (l1, []));
            (l3, e3) = (if m_shared_buf l2 \<noteq> nullptr \<and> m_shared_buf l2 \<noteq> MAP_FAILED
                        then (l2\<lparr>m_shared_buf := nullptr\<rparr>,
                              [Sys_munmap (m_shared_buf l2) (m_mmap_size l2)])
                        else (l2, []));
            (l4, e4) = (if 0 \<le> m_fd l3
                        then (l3\<lparr>m_fd := - 1\<rparr>, [Sys_close (m_fd l3)])
                        else (l3, []))
        in (l4, e2 @ e3 @ e4))"

text \<open>\<^verbatim>\<open>RpiFastIrq::~RpiFastIrq() { stop(); }\<close>\<close>

definition RpiFastIrq_dtor :: "'s RpiFastIrq \<Rightarrow> 's RpiFastIrq \<times> effect list" where
  "RpiFastIrq_dtor l = stop l"

text \<open>
  What an object holds, read off the guards of \<open>stop\<close>: a handle when \<open>m_fd >= 0\<close>, a
  mapping when \<open>m_shared_buf\<close> is neither \<open>nullptr\<close> nor \<open>MAP_FAILED\<close>.
\<close>

definition holds_handle :: "'s RpiFastIrq \<Rightarrow> bool" where
  "holds_handle l = (0 \<le> m_fd l)"

definition holds_mapping :: "'s RpiFastIrq \<Rightarrow> bool" where
  "holds_mapping l = (m_shared_buf l \<noteq> nullptr \<and> m_shared_buf l \<noteq> MAP_FAILED)"

definition idle :: "'s RpiFastIrq \<Rightarrow> bool" where
  "idle l = (\<not> m_running l \<and> \<not> holds_handle l \<and> \<not> holds_mapping l \<and> \<not> m_listener_thread l)"

definition attached :: "'s RpiFastIrq \<Rightarrow> bool" where
  "attached l = (m_running l \<and> holds_handle l \<and> holds_mapping l \<and> m_listener_thread l)"

subsection \<open>The listener thread\<close>

text \<open>
  What the thread works on: the memory it shares with the kernel module, its
  \<open>local_tail\<close>, the application's state that the callback acts on, and what it wrote
  to \<open>std::cerr\<close>.
\<close>

record 's thread_state =
  th_kernel :: kernel
  th_local_tail :: u32
  th_app :: 's
  th_cerr :: "diag list"

text \<open>
  One readiness pass, the body of \<^verbatim>\<open>if (pfd.revents & POLLIN)\<close>: load \<open>head\<close>, run
  the inner loop, store \<open>local_tail\<close> to \<open>tail\<close>.
\<close>

definition drain_pass :: "'s IrqCallback \<Rightarrow> 's thread_state \<Rightarrow> 's thread_state" where
  "drain_pass cb st =
     (let b = shared_buf (th_kernel st);
          current_head = head b;
          (local_tail, s) = drain_loop cb (events b) (th_local_tail st) current_head (th_app st)
      in st\<lparr>th_kernel := (th_kernel st)\<lparr>shared_buf := b\<lparr>tail := local_tail\<rparr>\<rparr>,
            th_local_tail := local_tail, th_app := s\<rparr>)"

definition EINTR :: int where
  "EINTR = 4"

text \<open>
  What happens around the thread while it runs: the interrupt fires (the producer's
  \<open>gpio_isr\<close> runs between two iterations), or \<open>::poll\<close> returns \<open>ret\<close> with \<open>errno\<close>
  and the \<open>POLLIN\<close> bit of \<open>revents\<close>. The list ends where the thread reads
  \<open>m_running\<close> as false.
\<close>

datatype sched_event =
    Interrupt u64 u32
  | Poll_returns int int bool

text \<open>The outer \<^verbatim>\<open>while (m_running)\<close> loop of \<open>listener_thread_func\<close>.\<close>

fun listener_loop :: "'s IrqCallback \<Rightarrow> sched_event list \<Rightarrow> 's thread_state \<Rightarrow> 's thread_state" where
  "listener_loop cb [] st = st"
| "listener_loop cb (Interrupt ts state # es) st =
     listener_loop cb es (st\<lparr>th_kernel := gpio_isr ts state (th_kernel st)\<rparr>)"
| "listener_loop cb (Poll_returns ret errno pollin # es) st =
     (if ret < 0 then
        (if errno \<noteq> EINTR then st\<lparr>th_cerr := th_cerr st @ [Poll_error]\<rparr>
         else listener_loop cb es st)
      else if ret > 0 then
        (if pollin then listener_loop cb es (drain_pass cb st)
         else listener_loop cb es st)
      else listener_loop cb es st)"

text \<open>
  \<open>listener_thread_func\<close> of version 2.0.0: the \<open>SCHED_FIFO\<close> request (\<open>sched_ok\<close> is
  whether \<open>sched_setscheduler\<close> succeeded), then
  \<^verbatim>\<open>uint32_t local_tail = __atomic_load_n(&m_shared_buf->head, __ATOMIC_ACQUIRE);
  __atomic_store_n(&m_shared_buf->tail, local_tail, __ATOMIC_RELEASE);\<close>
  and the loop.
\<close>

definition listener_thread_func ::
  "'s IrqCallback \<Rightarrow> bool \<Rightarrow> sched_event list \<Rightarrow> kernel \<Rightarrow> 's \<Rightarrow> 's thread_state" where
  "listener_thread_func cb sched_ok es k s =
     (let warn = (if sched_ok then [] else [Sched_fifo_failed]);
          local_tail = head (shared_buf k);
          k1 = k\<lparr>shared_buf := (shared_buf k)\<lparr>tail := local_tail\<rparr>\<rparr>
      in listener_loop cb es
           \<lparr>th_kernel = k1, th_local_tail = local_tail, th_app = s, th_cerr = warn\<rparr>)"

text \<open>
  \<open>listener_thread_func\<close> of CountsPerSecond_Plot/RpiFastIrq.cpp: the same, except
  \<^verbatim>\<open>uint32_t local_tail = 0;\<close> and no store to \<open>tail\<close> before the loop.
\<close>

definition listener_thread_func_plot ::
  "'s IrqCallback \<Rightarrow> bool \<Rightarrow> sched_event list \<Rightarrow> kernel \<Rightarrow> 's \<Rightarrow> 's thread_state" where
  "listener_thread_func_plot cb sched_ok es k s =
     (let warn = (if sched_ok then [] else [Sched_fifo_failed]);
          local_tail = 0
      in listener_loop cb es
           \<lparr>th_kernel = k, th_local_tail = local_tail, th_app = s, th_cerr = warn\<rparr>)"

text \<open>A callback that appends each record it is given to a list.\<close>

definition record_cb :: "(GpioIrqEvent list) IrqCallback" where
  "record_cb = Some (\<lambda>delivered ev. delivered @ [ev])"

text \<open>
  The records with counts \<open>t, t + 1, \<dots>, h - 1\<close> (modulo \<open>2 ^ 32\<close>), each read from slot
  \<open>count mod KBUF_SIZE\<close>: what a drain from \<open>t\<close> to \<open>h\<close> is to deliver.
\<close>

definition records_between :: "GpioIrqEvent list \<Rightarrow> u32 \<Rightarrow> u32 \<Rightarrow> GpioIrqEvent list" where
  "records_between evs t h =
     map (\<lambda>k. evs ! (unat (t + word_of_nat k) mod KBUF_SIZE)) [0..<unat (h - t)]"

text \<open>
  The records a run of interrupts writes when \<open>total_interrupts\<close> was \<open>n\<close> before it:
  the \<open>j\<close>-th carries its own timestamp and pin state and the sequence number
  \<open>n + 1 + j\<close>.
\<close>

definition published :: "u32 \<Rightarrow> (u64 \<times> u32) list \<Rightarrow> GpioIrqEvent list" where
  "published n ins =
     map (\<lambda>(j, (ts, state)).
            \<lparr>timestamp_ns = ts, event_counter = n + 1 + word_of_nat j, pin_state = state\<rparr>)
       (enumerate 0 ins)"

section \<open>Struct declarations and their layout\<close>

text \<open>
  A struct declaration as the source writes it: members in order, each a \<open>u32\<close>, a
  \<open>u64\<close>, or an array of event structs.
\<close>

datatype scalar = U32 | U64

type_synonym event_decl = "(string \<times> scalar) list"

datatype member = Field string scalar | Event_array string event_decl nat

type_synonym ring_decl = "member list"

text \<open>
  The kernel module under kernel_module/ (\<open>pin_state\<close> is commented out there):
  \<^verbatim>\<open>struct GpioIrqEvent { u64 timestamp_ns; u32 event_counter; // u32 pin_state;
  };\<close>
\<close>

definition GpioIrqEvent_kernel_module :: event_decl where
  "GpioIrqEvent_kernel_module = [(''timestamp_ns'', U64), (''event_counter'', U32)]"

definition SharedRingBuffer_kernel_module :: ring_decl where
  "SharedRingBuffer_kernel_module =
     [Field ''head'' U32, Field ''tail'' U32,
      Event_array ''events'' GpioIrqEvent_kernel_module 256]"

text \<open>
  The two earlier kernel modules declare the event struct with all three members, and
  the earlier zero-copy one declares the ring over it.
\<close>

definition GpioIrqEvent_kernel_earlier :: event_decl where
  "GpioIrqEvent_kernel_earlier =
     [(''timestamp_ns'', U64), (''event_counter'', U32), (''pin_state'', U32)]"

definition SharedRingBuffer_kernel_earlier :: ring_decl where
  "SharedRingBuffer_kernel_earlier =
     [Field ''head'' U32, Field ''tail'' U32,
      Event_array ''events'' GpioIrqEvent_kernel_earlier 256]"

text \<open>CountsPerSecond/RpiFastIrq.hpp.\<close>

definition GpioIrqEvent_hpp :: event_decl where
  "GpioIrqEvent_hpp =
     [(''timestamp_ns'', U64), (''event_counter'', U32), (''pin_state'', U32)]"

definition SharedRingBuffer_hpp :: ring_decl where
  "SharedRingBuffer_hpp =
     [Field ''head'' U32, Field ''tail'' U32, Event_array ''events'' GpioIrqEvent_hpp 256]"

text \<open>
  CountsPerSecond_Plot/RpiFastIrq.hpp (the array is commented out there):
  \<^verbatim>\<open>struct SharedRingBuffer { uint32_t head; uint32_t tail; //GpioIrqEvent events[KBUF_SIZE];
  };\<close>
\<close>

definition SharedRingBuffer_plot_hpp :: ring_decl where
  "SharedRingBuffer_plot_hpp = [Field ''head'' U32, Field ''tail'' U32]"

text \<open>
  The layout rule of the LP64 C and C++ ABI that both sides are compiled for: a scalar
  is aligned to its size, a member is placed at the next multiple of its alignment, a
  struct is aligned to its strictest member and padded at the end to a multiple of that.
  A placed member is \<open>(name, offset, width)\<close>.
\<close>

fun scalar_size :: "scalar \<Rightarrow> nat" where
  "scalar_size U32 = 4"
| "scalar_size U64 = 8"

definition round_up :: "nat \<Rightarrow> nat \<Rightarrow> nat" where
  "round_up a n = ((n + a - 1) div a) * a"

fun place_fields :: "nat \<Rightarrow> event_decl \<Rightarrow> (string \<times> nat \<times> nat) list" where
  "place_fields off [] = []"
| "place_fields off ((name, t) # fs) =
     (let at = round_up (scalar_size t) off
      in (name, at, scalar_size t) # place_fields (at + scalar_size t) fs)"

fun end_fields :: "nat \<Rightarrow> event_decl \<Rightarrow> nat" where
  "end_fields off [] = off"
| "end_fields off ((name, t) # fs) =
     end_fields (round_up (scalar_size t) off + scalar_size t) fs"

fun align_fields :: "event_decl \<Rightarrow> nat" where
  "align_fields [] = 1"
| "align_fields ((name, t) # fs) = max (scalar_size t) (align_fields fs)"

definition sizeof_event :: "event_decl \<Rightarrow> nat" where
  "sizeof_event fs = round_up (align_fields fs) (end_fields 0 fs)"

fun member_name :: "member \<Rightarrow> string" where
  "member_name (Field name t) = name"
| "member_name (Event_array name ed n) = name"

fun member_size :: "member \<Rightarrow> nat" where
  "member_size (Field name t) = scalar_size t"
| "member_size (Event_array name ed n) = n * sizeof_event ed"

fun member_align :: "member \<Rightarrow> nat" where
  "member_align (Field name t) = scalar_size t"
| "member_align (Event_array name ed n) = align_fields ed"

fun place_members :: "nat \<Rightarrow> ring_decl \<Rightarrow> (string \<times> nat \<times> nat) list" where
  "place_members off [] = []"
| "place_members off (m # ms) =
     (let at = round_up (member_align m) off
      in (member_name m, at, member_size m) # place_members (at + member_size m) ms)"

fun end_members :: "nat \<Rightarrow> ring_decl \<Rightarrow> nat" where
  "end_members off [] = off"
| "end_members off (m # ms) = end_members (round_up (member_align m) off + member_size m) ms"

fun align_members :: "ring_decl \<Rightarrow> nat" where
  "align_members [] = 1"
| "align_members (m # ms) = max (member_align m) (align_members ms)"

definition sizeof_ring :: "ring_decl \<Rightarrow> nat" where
  "sizeof_ring ms = round_up (align_members ms) (end_members 0 ms)"

text \<open>
  \<open>start\<close> of version 2.0.0 and of CountsPerSecond_Plot, each with the header that lies
  beside it.
\<close>

definition start ::
  "'s IrqCallback \<Rightarrow> start_env \<Rightarrow> 's RpiFastIrq \<Rightarrow> bool \<times> 's RpiFastIrq \<times> effect list" where
  "start = start_with O_RDWR (word_of_nat (sizeof_ring SharedRingBuffer_hpp))"

definition start_plot ::
  "'s IrqCallback \<Rightarrow> start_env \<Rightarrow> 's RpiFastIrq \<Rightarrow> bool \<times> 's RpiFastIrq \<times> effect list" where
  "start_plot = start_with O_RDONLY (word_of_nat (sizeof_ring SharedRingBuffer_plot_hpp))"

section \<open>The first kernel module (spinlock-protected ring, read-based)\<close>

text \<open>
  Its globals: \<open>total_interrupts\<close>, \<open>k_buffer[KBUF_SIZE]\<close>, and the two
  \<open>unsigned int\<close> indices \<open>k_head\<close> and \<open>k_tail\<close>, all under \<open>event_lock\<close>.
\<close>

record kernel_v1 =
  total_interrupts_v1 :: u32
  k_buffer :: "GpioIrqEvent list"
  k_head :: u32
  k_tail :: u32

definition rpi_fast_irq_init_v1 :: kernel_v1 where
  "rpi_fast_irq_init_v1 =
     \<lparr>total_interrupts_v1 = 0,
      k_buffer = replicate KBUF_SIZE \<lparr>timestamp_ns = 0, event_counter = 0, pin_state = 0\<rparr>,
      k_head = 0, k_tail = 0\<rparr>"

text \<open>
  \<open>gpio_isr\<close> of this module, between \<open>spin_lock_irqsave\<close> and
  \<open>spin_unlock_irqrestore\<close>:
  \<^verbatim>\<open>
  k_head = (k_head + 1) % KBUF_SIZE;
  // Handle buffer overflow: drop the oldest event by advancing the tail
  if (k_head == k_tail) { k_tail = (k_tail + 1) % KBUF_SIZE; }\<close>
\<close>

definition gpio_isr_v1 :: "u64 \<Rightarrow> u32 \<Rightarrow> kernel_v1 \<Rightarrow> kernel_v1" where
  "gpio_isr_v1 ts state k =
     (let total = total_interrupts_v1 k + 1;
          buf = (k_buffer k)[unat (k_head k) :=
                  \<lparr>timestamp_ns = ts, event_counter = total, pin_state = state\<rparr>];
          h = (k_head k + 1) mod word_of_nat KBUF_SIZE;
          t = (if h = k_tail k then (k_tail k + 1) mod word_of_nat KBUF_SIZE else k_tail k)
      in \<lparr>total_interrupts_v1 = total, k_buffer = buf, k_head = h, k_tail = t\<rparr>)"

definition EINVAL :: int where
  "EINVAL = 22"

definition EFAULT :: int where
  "EFAULT = 14"

text \<open>
  \<open>dev_read\<close> of this module, from the moment \<open>wait_event_interruptible\<close> has
  returned: \<open>len\<close> is the caller's buffer length and \<open>copy_err\<close> what \<open>copy_to_user\<close>
  returned. The result is the negated errno, or the byte count with the copied record.
\<close>

definition dev_read :: "nat \<Rightarrow> nat \<Rightarrow> kernel_v1 \<Rightarrow> (int + nat \<times> GpioIrqEvent) \<times> kernel_v1" where
  "dev_read len copy_err k =
     (if len < sizeof_event GpioIrqEvent_kernel_earlier then (Inl (- EINVAL), k)
      else
        let local_event = k_buffer k ! unat (k_tail k);
            k' = k\<lparr>k_tail := (k_tail k + 1) mod word_of_nat KBUF_SIZE\<rparr>
        in if copy_err = 0 then (Inr (sizeof_event GpioIrqEvent_kernel_earlier, local_event), k')
           else (Inl (- EFAULT), k'))"

definition isr_run_v1 :: "(u64 \<times> u32) list \<Rightarrow> kernel_v1 \<Rightarrow> kernel_v1" where
  "isr_run_v1 ins k = foldl (\<lambda>k (ts, state). gpio_isr_v1 ts state k) k ins"

section \<open>The read-based listener (Benchmark/RpiFastIrq.cpp)\<close>

text \<open>
  One wake-up of its thread: what \<open>::poll\<close> returned, and what \<open>::read\<close> returns if
  the thread calls it (\<open>bytes_read\<close> and the record copied out).
\<close>

datatype bench_event = Bench_wake int int bool int GpioIrqEvent

record 's bench_state =
  b_app :: 's
  b_reads :: nat
  b_cerr :: "diag list"

text \<open>
  Its \<open>listener_thread_func\<close>; \<open>b_reads\<close> counts the calls of \<open>::read\<close>, each of
  which takes one record out of the kernel's ring.
\<close>

fun bench_listener_loop :: "'s IrqCallback \<Rightarrow> bench_event list \<Rightarrow> 's bench_state \<Rightarrow> 's bench_state" where
  "bench_listener_loop cb [] st = st"
| "bench_listener_loop cb (Bench_wake ret errno pollin bytes_read event_data # es) st =
     (if ret < 0 then
        (if errno \<noteq> EINTR then st\<lparr>b_cerr := b_cerr st @ [Poll_error]\<rparr>
         else bench_listener_loop cb es st)
      else if ret > 0 then
        (if pollin then
           (let st1 = st\<lparr>b_reads := b_reads st + 1\<rparr>
            in if bytes_read = int (sizeof_event GpioIrqEvent_hpp)
               then bench_listener_loop cb es (st1\<lparr>b_app := dispatch cb (b_app st1) event_data\<rparr>)
               else if bytes_read > 0
               then bench_listener_loop cb es (st1\<lparr>b_cerr := b_cerr st1 @ [Partial_read bytes_read]\<rparr>)
               else bench_listener_loop cb es (st1\<lparr>b_cerr := b_cerr st1 @ [Read_failed]\<rparr>))
         else bench_listener_loop cb es st)
      else bench_listener_loop cb es st)"

section \<open>The application's queue (Basic_usage/main.cpp)\<close>

text \<open>
  \<^verbatim>\<open>template <typename T, size_t Size> class LockFreeRingBuffer\<close>: \<open>m_data[Size]\<close>
  and the two \<open>std::atomic<size_t>\<close> cursors. \<open>size_t\<close> has 64 bits on the target.
\<close>

record 'a LockFreeRingBuffer =
  m_data :: "'a list"
  m_head :: "64 word"
  m_tail :: "64 word"

definition push :: "64 word \<Rightarrow> 'a \<Rightarrow> 'a LockFreeRingBuffer \<Rightarrow> bool \<times> 'a LockFreeRingBuffer" where
  "push Size item q =
     (let current_head = m_head q
      in if current_head - m_tail q \<ge> Size then (False, q)
         else (True, q\<lparr>m_data := (m_data q)[unat (current_head mod Size) := item],
                        m_head := current_head + 1\<rparr>))"

text \<open>
  \<open>pop\<close> returns \<open>false\<close> and leaves \<open>item\<close> alone (\<open>None\<close>), or writes \<open>item\<close> and
  returns \<open>true\<close> (\<open>Some item\<close>).
\<close>

definition pop :: "64 word \<Rightarrow> 'a LockFreeRingBuffer \<Rightarrow> 'a option \<times> 'a LockFreeRingBuffer" where
  "pop Size q =
     (let current_tail = m_tail q
      in if current_tail = m_head q then (None, q)
         else (Some (m_data q ! unat (current_tail mod Size)), q\<lparr>m_tail := current_tail + 1\<rparr>))"

text \<open>
  \<open>my_irq_callback\<close> of Basic_usage/main.cpp: push into the global queue of 1024
  slots and ignore the result.
\<close>

definition my_irq_callback :: "(GpioIrqEvent LockFreeRingBuffer) IrqCallback" where
  "my_irq_callback = Some (\<lambda>g_event_buffer event. snd (push 1024 event g_event_buffer))"

section \<open>The drain loop\<close>

lemma unat_diff_Suc:
  fixes t h :: u32
  assumes "unat (h - t) = Suc n"
  shows "t \<noteq> h" and "unat (h - (t + 1)) = n"
proof -
  show ne: "t \<noteq> h" using assms by auto
  then have nz: "h - t \<noteq> 0" by simp
  have "h - (t + 1) = (h - t) - 1" by simp
  then have "unat (h - (t + 1)) = unat ((h - t) - 1)" by (rule arg_cong)
  also have "\<dots> = unat (h - t) - 1" by (rule unat_minus_one [OF nz])
  finally show "unat (h - (t + 1)) = n" using assms by simp
qed

lemma records_between_step:
  fixes t h :: u32
  assumes "t \<noteq> h"
  shows "records_between evs t h = evs ! (unat t mod KBUF_SIZE) # records_between evs (t + 1) h"
proof -
  from assms have nz: "h - t \<noteq> 0" by simp
  then obtain n where n: "unat (h - t) = Suc n"
    by (metis not0_implies_Suc unat_eq_zero)
  have m: "unat (h - (t + 1)) = n" by (rule unat_diff_Suc(2) [OF n])
  have "[0..<Suc n] = 0 # map Suc [0..<n]"
    by (simp add: upt_conv_Cons map_Suc_upt del: upt_Suc)
  then show ?thesis
    by (simp add: records_between_def n m comp_def add.assoc del: upt_Suc)
qed

lemma records_between_empty: "records_between evs h h = []"
  by (simp add: records_between_def)

lemma drain_loop_eq:
  "drain_loop cb evs t h s = (h, foldl (dispatch cb) s (records_between evs t h))"
proof (induction cb evs t h s rule: drain_loop.induct)
  case (1 cb evs local_tail current_head s)
  show ?case
  proof (cases "local_tail = current_head")
    case True
    then show ?thesis
      by (simp add: drain_loop.simps [of cb evs current_head current_head] records_between_empty)
  next
    case False
    show ?thesis
      using "1" [OF False] False
      by (subst drain_loop.simps) (simp add: records_between_step [OF False])
  qed
qed

lemma d256: "(256::nat) dvd 2 ^ 32"
proof -
  have "(2::nat) ^ 32 = 256 * 2 ^ 24" by simp
  then show ?thesis by (rule dvdI)
qed

lemma slot_of_count:
  fixes h :: u32
  shows "unat (h + word_of_nat j) mod KBUF_SIZE = (unat h + j) mod KBUF_SIZE"
proof -
  have "unat (h + word_of_nat j) = (unat h + unat (word_of_nat j :: u32)) mod 2 ^ 32"
    by (simp add: unat_word_ariths)
  also have "\<dots> = (unat h + j mod 2 ^ 32) mod 2 ^ 32"
    by (simp add: unat_of_nat)
  also have "\<dots> = (unat h + j) mod 2 ^ 32"
    by (rule mod_add_right_eq)
  finally have "unat (h + word_of_nat j) mod 256 = ((unat h + j) mod 2 ^ 32) mod 256"
    by (rule arg_cong)
  also have "\<dots> = (unat h + j) mod 256"
    by (rule mod_mod_cancel [OF d256])
  finally show ?thesis unfolding KBUF_SIZE_def .
qed

lemma mod_shift_inj:
  fixes a j n :: nat
  assumes "j < m" "n < m" "(a + j) mod m = (a + n) mod m"
  shows "j = n"
proof (rule ccontr)
  assume ne: "j \<noteq> n"
  { fix x y :: nat
    assume xy: "x < y" "y < m" and eq: "(a + y) mod m = (a + x) mod m"
    have "a + x \<le> a + y" using xy by simp
    then have "m dvd (a + y) - (a + x)"
      using eq by (simp add: mod_eq_dvd_iff_nat)
    then have "m dvd y - x" by simp
    moreover have "0 < y - x" "y - x < m" using xy by simp_all
    ultimately have False by (meson dvd_imp_le not_less)
  }
  note key = this
  from ne consider "j < n" | "n < j" by linarith
  then show False
  proof cases
    case 1
    then show ?thesis using key [of j n] assms by simp
  next
    case 2
    then show ?thesis using key [of n j] assms by simp
  qed
qed

lemma slot_distinct:
  fixes h :: u32
  assumes "j < KBUF_SIZE" "n < KBUF_SIZE" "j \<noteq> n"
  shows "unat (h + word_of_nat j) mod KBUF_SIZE \<noteq> unat (h + word_of_nat n) mod KBUF_SIZE"
  unfolding slot_of_count using assms mod_shift_inj [of j KBUF_SIZE n "unat h"] by blast

lemma isr_run_snoc: "isr_run (ins @ [(ts, state)]) k = gpio_isr ts state (isr_run ins k)"
  by (simp add: isr_run_def)

lemma gpio_isr_head: "head (shared_buf (gpio_isr ts state k)) = head (shared_buf k) + 1"
  by (simp add: gpio_isr_def Let_def)

lemma gpio_isr_tail: "tail (shared_buf (gpio_isr ts state k)) = tail (shared_buf k)"
  by (simp add: gpio_isr_def Let_def)

lemma gpio_isr_total: "total_interrupts (gpio_isr ts state k) = total_interrupts k + 1"
  by (simp add: gpio_isr_def Let_def)

lemma gpio_isr_wf: "wf_buf (shared_buf (gpio_isr ts state k)) = wf_buf (shared_buf k)"
  by (simp add: gpio_isr_def Let_def wf_buf_def)

lemma gpio_isr_events:
  "events (shared_buf (gpio_isr ts state k)) =
     (events (shared_buf k))[unat (head (shared_buf k)) mod KBUF_SIZE :=
        \<lparr>timestamp_ns = ts, event_counter = total_interrupts k + 1, pin_state = state\<rparr>]"
  by (simp add: gpio_isr_def Let_def)

lemma isr_run_head: "head (shared_buf (isr_run ins k)) = head (shared_buf k) + word_of_nat (length ins)"
  by (induction ins rule: rev_induct) (auto simp: isr_run_snoc gpio_isr_head isr_run_def)

lemma isr_run_tail: "tail (shared_buf (isr_run ins k)) = tail (shared_buf k)"
  by (induction ins rule: rev_induct) (auto simp: isr_run_snoc gpio_isr_tail isr_run_def)

lemma isr_run_total: "total_interrupts (isr_run ins k) = total_interrupts k + word_of_nat (length ins)"
  by (induction ins rule: rev_induct) (auto simp: isr_run_snoc gpio_isr_total isr_run_def)

lemma isr_run_wf: "wf_buf (shared_buf (isr_run ins k)) = wf_buf (shared_buf k)"
  by (induction ins rule: rev_induct) (auto simp: isr_run_snoc gpio_isr_wf isr_run_def)

lemma isr_run_slot:
  assumes "wf_buf (shared_buf k)" "length ins \<le> KBUF_SIZE" "j < length ins"
  shows "events (shared_buf (isr_run ins k)) ! (unat (head (shared_buf k) + word_of_nat j) mod KBUF_SIZE)
           = published (total_interrupts k) ins ! j"
  using assms
proof (induction ins arbitrary: j rule: rev_induct)
  case Nil
  then show ?case by simp
next
  case (snoc x ins)
  obtain ts state where x: "x = (ts, state)" by (cases x)
  let ?k = "isr_run ins k"
  have len: "length ins < KBUF_SIZE" using snoc.prems by simp
  have wf: "length (events (shared_buf ?k)) = KBUF_SIZE"
    using snoc.prems(1) isr_run_wf [of ins k] by (simp add: wf_buf_def)
  have pub: "published (total_interrupts k) (ins @ [x]) =
      published (total_interrupts k) ins @
        [\<lparr>timestamp_ns = ts, event_counter = total_interrupts k + 1 + word_of_nat (length ins), pin_state = state\<rparr>]"
    by (simp add: published_def enumerate_append_eq x)
  have plen: "length (published (total_interrupts k) ins) = length ins"
    by (simp add: published_def)
  let ?h = "head (shared_buf k)"
  let ?new = "\<lparr>timestamp_ns = ts, event_counter = total_interrupts k + 1 + word_of_nat (length ins), pin_state = state\<rparr>"
  have ev: "events (shared_buf (isr_run (ins @ [x]) k)) =
      (events (shared_buf ?k))[unat (?h + word_of_nat (length ins)) mod KBUF_SIZE := ?new]"
    unfolding x isr_run_snoc gpio_isr_events isr_run_head isr_run_total
    by (simp add: add.assoc add.commute [of 1])
  show ?case
  proof (cases "j = length ins")
    case True
    have lt: "unat (?h + word_of_nat (length ins)) mod KBUF_SIZE < length (events (shared_buf ?k))"
      unfolding wf by (simp add: KBUF_SIZE_def)
    have "events (shared_buf (isr_run (ins @ [x]) k)) ! (unat (?h + word_of_nat j) mod KBUF_SIZE) = ?new"
      unfolding ev True by (rule nth_list_update_eq [OF lt])
    moreover have "published (total_interrupts k) (ins @ [x]) ! j = ?new"
      unfolding pub True using plen by (simp add: nth_append)
    ultimately show ?thesis by simp
  next
    case False
    then have j: "j < length ins" using snoc.prems by simp
    have ne: "unat (?h + word_of_nat (length ins)) mod KBUF_SIZE \<noteq>
              unat (?h + word_of_nat j) mod KBUF_SIZE"
      using slot_distinct [of "length ins" j ?h] len j by simp
    have ih: "events (shared_buf ?k) ! (unat (?h + word_of_nat j) mod KBUF_SIZE)
           = published (total_interrupts k) ins ! j"
      using snoc.IH [of j] snoc.prems(1) len j by simp
    have "events (shared_buf (isr_run (ins @ [x]) k)) ! (unat (?h + word_of_nat j) mod KBUF_SIZE)
          = events (shared_buf ?k) ! (unat (?h + word_of_nat j) mod KBUF_SIZE)"
      unfolding ev by (rule nth_list_update_neq [OF ne])
    moreover have "published (total_interrupts k) (ins @ [x]) ! j = published (total_interrupts k) ins ! j"
      unfolding pub using plen j by (simp add: nth_append)
    ultimately show ?thesis using ih by simp
  qed
qed

lemma unat_small: "n \<le> KBUF_SIZE \<Longrightarrow> unat (word_of_nat n :: u32) = n"
  by (simp add: unat_of_nat KBUF_SIZE_def)

lemma records_between_isr_run:
  assumes "wf_buf (shared_buf k)" "length ins \<le> KBUF_SIZE"
  shows "records_between (events (shared_buf (isr_run ins k))) (head (shared_buf k))
           (head (shared_buf (isr_run ins k))) = published (total_interrupts k) ins"
proof (rule nth_equalityI)
  show "length (records_between (events (shared_buf (isr_run ins k))) (head (shared_buf k))
           (head (shared_buf (isr_run ins k)))) = length (published (total_interrupts k) ins)"
    using assms(2) by (simp add: records_between_def isr_run_head published_def unat_small)
next
  fix j
  assume "j < length (records_between (events (shared_buf (isr_run ins k))) (head (shared_buf k))
           (head (shared_buf (isr_run ins k))))"
  then have j: "j < length ins"
    using assms(2) by (simp add: records_between_def isr_run_head unat_small)
  then show "records_between (events (shared_buf (isr_run ins k))) (head (shared_buf k))
           (head (shared_buf (isr_run ins k))) ! j = published (total_interrupts k) ins ! j"
    using assms(2) isr_run_slot [OF assms j]
    by (simp add: records_between_def isr_run_head unat_small)
qed


lemma dispatch_Some: "dispatch (Some f) = f"
  by (rule ext, rule ext) (simp add: dispatch_def)

lemma foldl_record_cb: "foldl (dispatch record_cb) acc xs = acc @ xs"
  by (induction xs arbitrary: acc) (simp_all add: record_cb_def dispatch_def)

lemma drain_pass_app:
  "th_app (drain_pass cb st) =
     foldl (dispatch cb) (th_app st)
       (records_between (events (shared_buf (th_kernel st))) (th_local_tail st)
          (head (shared_buf (th_kernel st))))"
  by (simp add: drain_pass_def Let_def drain_loop_eq)

lemma drain_pass_local_tail:
  "th_local_tail (drain_pass cb st) = head (shared_buf (th_kernel st))"
  by (simp add: drain_pass_def Let_def drain_loop_eq)

lemma drain_pass_kernel:
  "th_kernel (drain_pass cb st) =
     (th_kernel st)\<lparr>shared_buf := (shared_buf (th_kernel st))\<lparr>tail := head (shared_buf (th_kernel st))\<rparr>\<rparr>"
  by (simp add: drain_pass_def Let_def drain_loop_eq)

lemma drain_pass_cerr: "th_cerr (drain_pass cb st) = th_cerr st"
  by (simp add: drain_pass_def Let_def drain_loop_eq)

lemma init_wf: "wf_buf (shared_buf rpi_fast_irq_init)"
  by (simp add: rpi_fast_irq_init_def wf_buf_def)

lemma length_records_between: "length (records_between evs t h) = unat (h - t)"
  by (simp add: records_between_def)

text \<open>
  C1. A drain from local tail \<open>T\<close> to the observed head \<open>H\<close> calls the callback once
  for each count \<open>T, T + 1, \<dots>, H - 1\<close>, in that order, on the record in slot
  \<open>count mod KBUF_SIZE\<close>: \<open>unat (H - T)\<close> calls in all, and the loop ends with
  \<open>local_tail = H\<close>. After ten interrupts on a freshly initialised module a single pass
  from tail 0 delivers the ten records with sequence numbers 1 to 10, in order.
\<close>

theorem drain_delivers_in_order:
  "drain_loop (Some f) evs T H s = (H, foldl f s (records_between evs T H))
   \<and> drain_loop record_cb evs T H [] = (H, records_between evs T H)
   \<and> length (records_between evs T H) = unat (H - T)
   \<and> th_app (drain_pass (Some f) st) =
       foldl f (th_app st)
         (records_between (events (shared_buf (th_kernel st))) (th_local_tail st)
            (head (shared_buf (th_kernel st))))
   \<and> th_app (drain_pass record_cb
        \<lparr>th_kernel = isr_run [(t1, p1), (t2, p2), (t3, p3), (t4, p4), (t5, p5),
                               (t6, p6), (t7, p7), (t8, p8), (t9, p9), (t10, p10)]
                        rpi_fast_irq_init,
         th_local_tail = 0, th_app = [], th_cerr = []\<rparr>) =
       [\<lparr>timestamp_ns = t1, event_counter = 1, pin_state = p1\<rparr>,
        \<lparr>timestamp_ns = t2, event_counter = 2, pin_state = p2\<rparr>,
        \<lparr>timestamp_ns = t3, event_counter = 3, pin_state = p3\<rparr>,
        \<lparr>timestamp_ns = t4, event_counter = 4, pin_state = p4\<rparr>,
        \<lparr>timestamp_ns = t5, event_counter = 5, pin_state = p5\<rparr>,
        \<lparr>timestamp_ns = t6, event_counter = 6, pin_state = p6\<rparr>,
        \<lparr>timestamp_ns = t7, event_counter = 7, pin_state = p7\<rparr>,
        \<lparr>timestamp_ns = t8, event_counter = 8, pin_state = p8\<rparr>,
        \<lparr>timestamp_ns = t9, event_counter = 9, pin_state = p9\<rparr>,
        \<lparr>timestamp_ns = t10, event_counter = 10, pin_state = p10\<rparr>]"
proof -
  let ?ins = "[(t1, p1), (t2, p2), (t3, p3), (t4, p4), (t5, p5),
               (t6, p6), (t7, p7), (t8, p8), (t9, p9), (t10, p10)]"
  have a: "drain_loop (Some f) evs T H s = (H, foldl f s (records_between evs T H))"
    by (simp add: drain_loop_eq dispatch_Some)
  have b: "drain_loop record_cb evs T H [] = (H, records_between evs T H)"
    by (simp add: drain_loop_eq foldl_record_cb)
  have c: "th_app (drain_pass (Some f) st) =
       foldl f (th_app st)
         (records_between (events (shared_buf (th_kernel st))) (th_local_tail st)
            (head (shared_buf (th_kernel st))))"
    by (simp add: drain_pass_app dispatch_Some)
  have len: "length ?ins \<le> KBUF_SIZE"
    by (simp add: KBUF_SIZE_def)
  have h0: "head (shared_buf rpi_fast_irq_init) = 0" and n0: "total_interrupts rpi_fast_irq_init = 0"
    by (simp_all add: rpi_fast_irq_init_def)
  have "th_app (drain_pass record_cb
        \<lparr>th_kernel = isr_run ?ins rpi_fast_irq_init,
         th_local_tail = 0, th_app = [], th_cerr = []\<rparr>) =
      records_between (events (shared_buf (isr_run ?ins rpi_fast_irq_init))) 0
          (head (shared_buf (isr_run ?ins rpi_fast_irq_init)))"
    by (simp add: drain_pass_app foldl_record_cb)
  also have "\<dots> = published 0 ?ins"
    using records_between_isr_run [OF init_wf len] by (simp only: h0 n0)
  also have "published 0 ?ins =
       [\<lparr>timestamp_ns = t1, event_counter = 1, pin_state = p1\<rparr>,
        \<lparr>timestamp_ns = t2, event_counter = 2, pin_state = p2\<rparr>,
        \<lparr>timestamp_ns = t3, event_counter = 3, pin_state = p3\<rparr>,
        \<lparr>timestamp_ns = t4, event_counter = 4, pin_state = p4\<rparr>,
        \<lparr>timestamp_ns = t5, event_counter = 5, pin_state = p5\<rparr>,
        \<lparr>timestamp_ns = t6, event_counter = 6, pin_state = p6\<rparr>,
        \<lparr>timestamp_ns = t7, event_counter = 7, pin_state = p7\<rparr>,
        \<lparr>timestamp_ns = t8, event_counter = 8, pin_state = p8\<rparr>,
        \<lparr>timestamp_ns = t9, event_counter = 9, pin_state = p9\<rparr>,
        \<lparr>timestamp_ns = t10, event_counter = 10, pin_state = p10\<rparr>]"
    by (simp add: published_def enumerate_eq_zip upt_rec)
  finally have d: "th_app (drain_pass record_cb
        \<lparr>th_kernel = isr_run ?ins rpi_fast_irq_init,
         th_local_tail = 0, th_app = [], th_cerr = []\<rparr>) =
       [\<lparr>timestamp_ns = t1, event_counter = 1, pin_state = p1\<rparr>,
        \<lparr>timestamp_ns = t2, event_counter = 2, pin_state = p2\<rparr>,
        \<lparr>timestamp_ns = t3, event_counter = 3, pin_state = p3\<rparr>,
        \<lparr>timestamp_ns = t4, event_counter = 4, pin_state = p4\<rparr>,
        \<lparr>timestamp_ns = t5, event_counter = 5, pin_state = p5\<rparr>,
        \<lparr>timestamp_ns = t6, event_counter = 6, pin_state = p6\<rparr>,
        \<lparr>timestamp_ns = t7, event_counter = 7, pin_state = p7\<rparr>,
        \<lparr>timestamp_ns = t8, event_counter = 8, pin_state = p8\<rparr>,
        \<lparr>timestamp_ns = t9, event_counter = 9, pin_state = p9\<rparr>,
        \<lparr>timestamp_ns = t10, event_counter = 10, pin_state = p10\<rparr>]" .
  show ?thesis
    using a b c d length_records_between by blast
qed

section \<open>Producer and drain together\<close>

lemma gpio_isr_slot:
  assumes "wf_buf (shared_buf k)"
  shows "events (shared_buf (gpio_isr ts state k)) ! (unat (head (shared_buf k)) mod KBUF_SIZE) =
           \<lparr>timestamp_ns = ts, event_counter = total_interrupts k + 1, pin_state = state\<rparr>"
proof -
  have "unat (head (shared_buf k)) mod KBUF_SIZE < length (events (shared_buf k))"
    using assms by (simp add: wf_buf_def KBUF_SIZE_def)
  then show ?thesis
    by (simp add: gpio_isr_events)
qed

text \<open>
  C4. The cursors are 32-bit counters: \<open>gpio_isr\<close> writes slot
  \<open>head mod KBUF_SIZE\<close> and stores \<open>head + 1\<close>. When at most \<open>KBUF_SIZE\<close> records are
  published from any head value, the drain from the old head to the new one delivers
  exactly those records, in order; nothing in this depends on whether the counter
  passes \<open>2 ^ 32 - 1\<close> on the way.
\<close>

theorem drain_after_publish_wraps:
  assumes "wf_buf (shared_buf k)" and "length ins \<le> KBUF_SIZE"
  shows "head (shared_buf (gpio_isr ts state k)) = head (shared_buf k) + 1
     \<and> events (shared_buf (gpio_isr ts state k)) ! (unat (head (shared_buf k)) mod KBUF_SIZE) =
         \<lparr>timestamp_ns = ts, event_counter = total_interrupts k + 1, pin_state = state\<rparr>
     \<and> head (shared_buf (isr_run ins k)) = head (shared_buf k) + word_of_nat (length ins)
     \<and> drain_loop (Some f) (events (shared_buf (isr_run ins k)))
         (head (shared_buf k)) (head (shared_buf (isr_run ins k))) s =
         (head (shared_buf (isr_run ins k)), foldl f s (published (total_interrupts k) ins))
     \<and> drain_loop record_cb (events (shared_buf (isr_run ins k)))
         (head (shared_buf k)) (head (shared_buf (isr_run ins k))) [] =
         (head (shared_buf (isr_run ins k)), published (total_interrupts k) ins)"
proof -
  have rb: "records_between (events (shared_buf (isr_run ins k))) (head (shared_buf k))
           (head (shared_buf (isr_run ins k))) = published (total_interrupts k) ins"
    by (rule records_between_isr_run [OF assms])
  have a: "drain_loop (Some f) (events (shared_buf (isr_run ins k)))
         (head (shared_buf k)) (head (shared_buf (isr_run ins k))) s =
         (head (shared_buf (isr_run ins k)), foldl f s (published (total_interrupts k) ins))"
    by (simp add: drain_loop_eq rb dispatch_Some)
  have b: "drain_loop record_cb (events (shared_buf (isr_run ins k)))
         (head (shared_buf k)) (head (shared_buf (isr_run ins k))) [] =
         (head (shared_buf (isr_run ins k)), published (total_interrupts k) ins)"
    by (simp add: drain_loop_eq rb foldl_record_cb)
  show ?thesis
    using a b gpio_isr_head [of ts state k] gpio_isr_slot [OF assms(1), of ts state]
      isr_run_head [of ins k]
    by blast
qed

text \<open>
  Four records published from head \<open>2 ^ 32 - 2\<close>: the head wraps to 2 and the drain
  delivers the four.
\<close>

theorem drain_after_publish_wraps_witness:
  "wf_buf (shared_buf
      \<lparr>total_interrupts = 7,
       shared_buf = \<lparr>head = 0xFFFFFFFE, tail = 0xFFFFFFFE,
         events = replicate KBUF_SIZE \<lparr>timestamp_ns = 0, event_counter = 0, pin_state = 0\<rparr>\<rparr>\<rparr>)
   \<and> length [(10 :: u64, 1 :: u32), (20, 0), (30, 1), (40, 0)] \<le> KBUF_SIZE
   \<and> drain_loop record_cb
        (events (shared_buf (isr_run [(10, 1), (20, 0), (30, 1), (40, 0)]
           \<lparr>total_interrupts = 7,
            shared_buf = \<lparr>head = 0xFFFFFFFE, tail = 0xFFFFFFFE,
              events = replicate KBUF_SIZE \<lparr>timestamp_ns = 0, event_counter = 0, pin_state = 0\<rparr>\<rparr>\<rparr>)))
        0xFFFFFFFE 2 [] =
       (2, [\<lparr>timestamp_ns = 10, event_counter = 8, pin_state = 1\<rparr>,
            \<lparr>timestamp_ns = 20, event_counter = 9, pin_state = 0\<rparr>,
            \<lparr>timestamp_ns = 30, event_counter = 10, pin_state = 1\<rparr>,
            \<lparr>timestamp_ns = 40, event_counter = 11, pin_state = 0\<rparr>])"
proof -
  let ?k = "\<lparr>total_interrupts = 7,
       shared_buf = \<lparr>head = 0xFFFFFFFE, tail = 0xFFFFFFFE,
         events = replicate KBUF_SIZE \<lparr>timestamp_ns = 0, event_counter = 0, pin_state = 0\<rparr>\<rparr>\<rparr>"
  let ?ins = "[(10 :: u64, 1 :: u32), (20, 0), (30, 1), (40, 0)]"
  have wf: "wf_buf (shared_buf ?k)"
    by (simp add: wf_buf_def)
  have len: "length ?ins \<le> KBUF_SIZE"
    by (simp add: KBUF_SIZE_def)
  have pub: "published 7 ?ins =
      [\<lparr>timestamp_ns = 10, event_counter = 8, pin_state = 1\<rparr>,
       \<lparr>timestamp_ns = 20, event_counter = 9, pin_state = 0\<rparr>,
       \<lparr>timestamp_ns = 30, event_counter = 10, pin_state = 1\<rparr>,
       \<lparr>timestamp_ns = 40, event_counter = 11, pin_state = 0\<rparr>]"
    by (simp add: published_def enumerate_eq_zip upt_rec)
  note t = drain_after_publish_wraps [OF wf len, of 0 0 "\<lambda>a b. a" "[]"]
  have "head (shared_buf (isr_run ?ins ?k)) = head (shared_buf ?k) + word_of_nat (length ?ins)"
    using t by blast
  then have h: "head (shared_buf (isr_run ?ins ?k)) = 2"
    by simp
  have "drain_loop record_cb (events (shared_buf (isr_run ?ins ?k)))
         (head (shared_buf ?k)) (head (shared_buf (isr_run ?ins ?k))) [] =
         (head (shared_buf (isr_run ?ins ?k)), published (total_interrupts ?k) ?ins)"
    using t by blast
  then have "drain_loop record_cb (events (shared_buf (isr_run ?ins ?k))) 0xFFFFFFFE 2 [] =
         (2, published 7 ?ins)"
    unfolding h by simp
  then show ?thesis
    unfolding pub using wf len by blast
qed

section \<open>The listener's life cycle\<close>

lemma start_variants:
  "start = start_with O_RDWR 4104" and "start_plot = start_with O_RDONLY 8"
  by (simp_all add: start_def start_plot_def sizeof_ring_def sizeof_event_def round_up_def
      SharedRingBuffer_hpp_def GpioIrqEvent_hpp_def SharedRingBuffer_plot_hpp_def)

lemma start_with_running:
  "m_running l \<Longrightarrow> start_with flags sz cb env l = (False, l, [Cerr Already_running])"
  by (simp add: start_with_def)

lemma start_with_open_fails:
  assumes "\<not> m_running l" and "open_ret env < 0"
  shows "start_with flags sz cb env l =
           (False, l\<lparr>m_fd := open_ret env\<rparr>,
            [Sys_open (m_device_path l) flags, Cerr (Open_failed (m_device_path l))])"
  using assms by (simp add: start_with_def Let_def)

lemma start_with_mmap_fails:
  assumes "\<not> m_running l" and "0 \<le> open_ret env" and "mmap_ret env = MAP_FAILED"
  shows "start_with flags sz cb env l =
           (False,
            l\<lparr>m_fd := - 1,
               m_mmap_size := (sz + page_size env - 1) AND NOT (page_size env - 1),
               m_shared_buf := MAP_FAILED\<rparr>,
            [Sys_open (m_device_path l) flags,
             Sys_mmap ((sz + page_size env - 1) AND NOT (page_size env - 1)) (open_ret env),
             Cerr Mmap_failed, Sys_close (open_ret env)])"
  using assms by (simp add: start_with_def Let_def)

lemma start_with_succeeds:
  assumes "\<not> m_running l" and "0 \<le> open_ret env" and "mmap_ret env \<noteq> MAP_FAILED"
  shows "start_with flags sz cb env l =
           (True,
            l\<lparr>m_fd := open_ret env,
               m_mmap_size := (sz + page_size env - 1) AND NOT (page_size env - 1),
               m_shared_buf := mmap_ret env,
               m_callback := cb, m_running := True, m_listener_thread := True\<rparr>,
            [Sys_open (m_device_path l) flags,
             Sys_mmap ((sz + page_size env - 1) AND NOT (page_size env - 1)) (open_ret env),
             Thread_spawn])"
  using assms by (simp add: start_with_def Let_def)

lemma start_with_fails_iff:
  "\<not> fst (start_with flags sz cb env l) \<longleftrightarrow>
     m_running l \<or> open_ret env < 0 \<or> mmap_ret env = MAP_FAILED"
  by (simp add: start_with_def Let_def)

text \<open>
  C5. \<open>start\<close> on a running listener returns false and changes nothing. When
  \<open>::open\<close> fails (it returns -1, the value \<open>m_fd\<close> already has in an idle listener),
  \<open>start\<close> returns false and the object is unchanged. When \<open>::mmap\<close> fails, the
  descriptor just opened is closed and \<open>m_fd\<close> is reset to -1 before false is
  returned. So a failed attach on an idle listener leaves it idle: no handle, no
  mapping, no thread, not running. This holds for the \<open>start\<close> of version 2.0.0 and of
  CountsPerSecond_Plot alike (any \<open>flags\<close>, any \<open>sz\<close>).
\<close>

theorem start_failure_atomic:
  "(m_running l \<longrightarrow> start_with flags sz cb env l = (False, l, [Cerr Already_running]))
   \<and> (\<not> m_running l \<and> m_fd l = - 1 \<and> open_ret env = - 1 \<longrightarrow>
        start_with flags sz cb env l =
          (False, l, [Sys_open (m_device_path l) flags, Cerr (Open_failed (m_device_path l))]))
   \<and> (\<not> m_running l \<and> 0 \<le> open_ret env \<and> mmap_ret env = MAP_FAILED \<longrightarrow>
        \<not> fst (start_with flags sz cb env l)
        \<and> snd (snd (start_with flags sz cb env l)) =
            [Sys_open (m_device_path l) flags,
             Sys_mmap ((sz + page_size env - 1) AND NOT (page_size env - 1)) (open_ret env),
             Cerr Mmap_failed, Sys_close (open_ret env)]
        \<and> m_fd (fst (snd (start_with flags sz cb env l))) = - 1
        \<and> \<not> holds_mapping (fst (snd (start_with flags sz cb env l)))
        \<and> \<not> m_running (fst (snd (start_with flags sz cb env l)))
        \<and> m_listener_thread (fst (snd (start_with flags sz cb env l))) = m_listener_thread l)
   \<and> (idle l \<and> \<not> fst (start_with flags sz cb env l) \<longrightarrow>
        idle (fst (snd (start_with flags sz cb env l))))"
proof (intro conjI impI)
  assume "m_running l"
  then show "start_with flags sz cb env l = (False, l, [Cerr Already_running])"
    by (rule start_with_running)
next
  assume a: "\<not> m_running l \<and> m_fd l = - 1 \<and> open_ret env = - 1"
  then have "l\<lparr>m_fd := open_ret env\<rparr> = l" by simp
  moreover have "open_ret env < 0" using a by simp
  ultimately show "start_with flags sz cb env l =
      (False, l, [Sys_open (m_device_path l) flags, Cerr (Open_failed (m_device_path l))])"
    using a start_with_open_fails [of l env flags sz cb] by simp
next
  assume a: "\<not> m_running l \<and> 0 \<le> open_ret env \<and> mmap_ret env = MAP_FAILED"
  note r = start_with_mmap_fails [of l env flags sz cb]
  show "\<not> fst (start_with flags sz cb env l)" using a r by simp
  show "snd (snd (start_with flags sz cb env l)) =
            [Sys_open (m_device_path l) flags,
             Sys_mmap ((sz + page_size env - 1) AND NOT (page_size env - 1)) (open_ret env),
             Cerr Mmap_failed, Sys_close (open_ret env)]" using a r by simp
  show "m_fd (fst (snd (start_with flags sz cb env l))) = - 1" using a r by simp
  show "\<not> holds_mapping (fst (snd (start_with flags sz cb env l)))"
    using a r by (simp add: holds_mapping_def)
  show "\<not> m_running (fst (snd (start_with flags sz cb env l)))" using a r by simp
  show "m_listener_thread (fst (snd (start_with flags sz cb env l))) = m_listener_thread l"
    using a r by simp
next
  assume a: "idle l \<and> \<not> fst (start_with flags sz cb env l)"
  then have nr: "\<not> m_running l" by (simp add: idle_def)
  from a have "open_ret env < 0 \<or> mmap_ret env = MAP_FAILED"
    using nr by (simp add: start_with_fails_iff)
  then consider "open_ret env < 0" | "0 \<le> open_ret env" "mmap_ret env = MAP_FAILED"
    by linarith
  then show "idle (fst (snd (start_with flags sz cb env l)))"
  proof cases
    case 1
    then show ?thesis
      using a start_with_open_fails [OF nr 1, of flags sz cb]
      by (simp add: idle_def holds_handle_def holds_mapping_def)
  next
    case 2
    then show ?thesis
      using a start_with_mmap_fails [OF nr 2, of flags sz cb]
      by (simp add: idle_def holds_handle_def holds_mapping_def)
  qed
qed

text \<open>
  A running listener, a fresh listener whose \<open>::open\<close> fails, and a fresh listener whose
  \<open>::mmap\<close> fails after \<open>::open\<close> returned descriptor 3.
\<close>

theorem start_failure_atomic_witness:
  "m_running ((RpiFastIrq_ctor ''/dev/rp1_gpio_irq'' :: unit RpiFastIrq)
      \<lparr>m_fd := 3, m_shared_buf := 4096, m_running := True, m_listener_thread := True\<rparr>)
   \<and> start None \<lparr>open_ret = 4, page_size = 4096, mmap_ret = 8192\<rparr>
        ((RpiFastIrq_ctor ''/dev/rp1_gpio_irq'' :: unit RpiFastIrq)
          \<lparr>m_fd := 3, m_shared_buf := 4096, m_running := True, m_listener_thread := True\<rparr>) =
       (False,
        (RpiFastIrq_ctor ''/dev/rp1_gpio_irq'')
          \<lparr>m_fd := 3, m_shared_buf := 4096, m_running := True, m_listener_thread := True\<rparr>,
        [Cerr Already_running])
   \<and> idle (RpiFastIrq_ctor ''/dev/rp1_gpio_irq'' :: unit RpiFastIrq)
   \<and> start None \<lparr>open_ret = - 1, page_size = 4096, mmap_ret = 0\<rparr>
        (RpiFastIrq_ctor ''/dev/rp1_gpio_irq'' :: unit RpiFastIrq) =
       (False, RpiFastIrq_ctor ''/dev/rp1_gpio_irq'',
        [Sys_open ''/dev/rp1_gpio_irq'' O_RDWR, Cerr (Open_failed ''/dev/rp1_gpio_irq'')])
   \<and> idle (fst (snd (start None \<lparr>open_ret = 3, page_size = 4096, mmap_ret = MAP_FAILED\<rparr>
        (RpiFastIrq_ctor ''/dev/rp1_gpio_irq'' :: unit RpiFastIrq))))
   \<and> snd (snd (start None \<lparr>open_ret = 3, page_size = 4096, mmap_ret = MAP_FAILED\<rparr>
        (RpiFastIrq_ctor ''/dev/rp1_gpio_irq'' :: unit RpiFastIrq))) =
       [Sys_open ''/dev/rp1_gpio_irq'' O_RDWR, Sys_mmap 8192 3, Cerr Mmap_failed, Sys_close 3]"
proof -
  let ?c = "RpiFastIrq_ctor ''/dev/rp1_gpio_irq'' :: unit RpiFastIrq"
  let ?r = "?c\<lparr>m_fd := 3, m_shared_buf := 4096, m_running := True, m_listener_thread := True\<rparr>"
  let ?sz = "word_of_nat (sizeof_ring SharedRingBuffer_hpp) :: 64 word"
  have sz: "?sz = 4104"
    by (simp add: sizeof_ring_def SharedRingBuffer_hpp_def GpioIrqEvent_hpp_def sizeof_event_def
        round_up_def)
  have size: "(4104 + 4096 - 1 :: 64 word) AND NOT (4096 - 1) = 8192"
    by simp
  have run: "m_running ?r" by simp
  have idl: "idle ?c"
    by (simp add: idle_def RpiFastIrq_ctor_def holds_handle_def holds_mapping_def nullptr_def)
  have nr: "\<not> m_running ?c" "m_fd ?c = - 1" "m_device_path ?c = ''/dev/rp1_gpio_irq''"
    by (simp_all add: RpiFastIrq_ctor_def)
  have a: "start None \<lparr>open_ret = 4, page_size = 4096, mmap_ret = 8192\<rparr> ?r =
      (False, ?r, [Cerr Already_running])"
    using start_failure_atomic [of ?r O_RDWR ?sz None "\<lparr>open_ret = 4, page_size = 4096, mmap_ret = 8192\<rparr>"] run
    unfolding start_def by blast
  have b: "start None \<lparr>open_ret = - 1, page_size = 4096, mmap_ret = 0\<rparr> ?c =
       (False, ?c, [Sys_open ''/dev/rp1_gpio_irq'' O_RDWR, Cerr (Open_failed ''/dev/rp1_gpio_irq'')])"
    using start_failure_atomic [of ?c O_RDWR ?sz None "\<lparr>open_ret = - 1, page_size = 4096, mmap_ret = 0\<rparr>"] nr
    unfolding start_def by simp
  note t = start_failure_atomic [of ?c O_RDWR ?sz None "\<lparr>open_ret = 3, page_size = 4096, mmap_ret = MAP_FAILED\<rparr>"]
  have nf: "\<not> fst (start None \<lparr>open_ret = 3, page_size = 4096, mmap_ret = MAP_FAILED\<rparr> ?c)"
    using t nr unfolding start_def by simp
  have c: "idle (fst (snd (start None \<lparr>open_ret = 3, page_size = 4096, mmap_ret = MAP_FAILED\<rparr> ?c)))"
    using t idl nf unfolding start_def by blast
  have d: "snd (snd (start None \<lparr>open_ret = 3, page_size = 4096, mmap_ret = MAP_FAILED\<rparr> ?c)) =
       [Sys_open ''/dev/rp1_gpio_irq'' O_RDWR, Sys_mmap 8192 3, Cerr Mmap_failed, Sys_close 3]"
    using t nr unfolding start_def sz by (simp add: size)
  show ?thesis
    using run a idl b c d by blast
qed

lemma stop_not_running: "\<not> m_running l \<Longrightarrow> stop l = (l, [])"
  by (simp add: stop_def)

lemma stop_clears_running: "\<not> m_running (fst (stop l))"
  by (simp add: stop_def Let_def split: prod.splits if_splits)

lemma stop_attached:
  assumes "attached l"
  shows "stop l =
           (l\<lparr>m_running := False, m_listener_thread := False, m_shared_buf := nullptr, m_fd := - 1\<rparr>,
            [Thread_join, Sys_munmap (m_shared_buf l) (m_mmap_size l), Sys_close (m_fd l)])"
  using assms by (simp add: stop_def attached_def holds_handle_def holds_mapping_def Let_def)

lemma start_success_attached:
  assumes "\<not> m_running l" and "fst (start_with flags sz cb env l)" and "mmap_ret env \<noteq> nullptr"
  shows "attached (fst (snd (start_with flags sz cb env l)))"
proof -
  from assms(1,2) have ok: "0 \<le> open_ret env" "mmap_ret env \<noteq> MAP_FAILED"
    using start_with_fails_iff [of flags sz cb env l] by auto
  show ?thesis
    using start_with_succeeds [OF assms(1) ok, of flags sz cb] assms(3) ok
    by (simp add: attached_def holds_handle_def holds_mapping_def)
qed

text \<open>
  C6. \<open>stop\<close> on a listener that is not running (never started, already stopped, or
  reached again from the destructor) does nothing: the object is unchanged and nothing is
  joined, unmapped or closed. A second \<open>stop\<close> right after a first is such a call. On
  an attached listener the first \<open>stop\<close> joins the thread, unmaps the region and closes
  the handle, each once, and leaves the listener idle.
\<close>

theorem stop_idempotent:
  "(\<not> m_running l \<longrightarrow> stop l = (l, []) \<and> RpiFastIrq_dtor l = (l, []))
   \<and> stop (RpiFastIrq_ctor path) = (RpiFastIrq_ctor path, [])
   \<and> stop (fst (stop l)) = (fst (stop l), [])
   \<and> RpiFastIrq_dtor (fst (stop l)) = (fst (stop l), [])
   \<and> (attached l \<longrightarrow>
        snd (stop l) @ snd (stop (fst (stop l))) =
          [Thread_join, Sys_munmap (m_shared_buf l) (m_mmap_size l), Sys_close (m_fd l)]
        \<and> idle (fst (stop l))
        \<and> m_shared_buf (fst (stop l)) = nullptr \<and> m_fd (fst (stop l)) = - 1)"
proof (intro conjI impI)
  assume "\<not> m_running l"
  then show "stop l = (l, [])" "RpiFastIrq_dtor l = (l, [])"
    by (simp_all add: RpiFastIrq_dtor_def stop_not_running)
next
  show "stop (RpiFastIrq_ctor path) = (RpiFastIrq_ctor path, [])"
    by (rule stop_not_running) (simp add: RpiFastIrq_ctor_def)
next
  show twice: "stop (fst (stop l)) = (fst (stop l), [])"
    by (rule stop_not_running [OF stop_clears_running])
  then show "RpiFastIrq_dtor (fst (stop l)) = (fst (stop l), [])"
    by (simp add: RpiFastIrq_dtor_def)
  assume a: "attached l"
  show "snd (stop l) @ snd (stop (fst (stop l))) =
          [Thread_join, Sys_munmap (m_shared_buf l) (m_mmap_size l), Sys_close (m_fd l)]"
    unfolding twice by (simp add: stop_attached [OF a])
  show "idle (fst (stop l))"
    by (simp add: stop_attached [OF a] idle_def holds_handle_def holds_mapping_def)
  show "m_shared_buf (fst (stop l)) = nullptr" "m_fd (fst (stop l)) = - 1"
    by (simp_all add: stop_attached [OF a])
qed

text \<open>
  A listener attached with descriptor 3 and a mapping of 8192 bytes at address 4096,
  stopped twice; and a fresh listener, stopped.
\<close>

theorem stop_idempotent_witness:
  "attached ((RpiFastIrq_ctor ''/dev/rp1_gpio_irq'' :: unit RpiFastIrq)
      \<lparr>m_fd := 3, m_shared_buf := 4096, m_mmap_size := 8192, m_running := True,
        m_listener_thread := True\<rparr>)
   \<and> stop ((RpiFastIrq_ctor ''/dev/rp1_gpio_irq'' :: unit RpiFastIrq)
      \<lparr>m_fd := 3, m_shared_buf := 4096, m_mmap_size := 8192, m_running := True,
        m_listener_thread := True\<rparr>) =
       ((RpiFastIrq_ctor ''/dev/rp1_gpio_irq'')\<lparr>m_mmap_size := 8192\<rparr>,
        [Thread_join, Sys_munmap 4096 8192, Sys_close 3])
   \<and> stop ((RpiFastIrq_ctor ''/dev/rp1_gpio_irq'' :: unit RpiFastIrq)\<lparr>m_mmap_size := 8192\<rparr>) =
       ((RpiFastIrq_ctor ''/dev/rp1_gpio_irq'')\<lparr>m_mmap_size := 8192\<rparr>, [])
   \<and> \<not> m_running (RpiFastIrq_ctor ''/dev/rp1_gpio_irq'' :: unit RpiFastIrq)
   \<and> RpiFastIrq_dtor (RpiFastIrq_ctor ''/dev/rp1_gpio_irq'' :: unit RpiFastIrq) =
       (RpiFastIrq_ctor ''/dev/rp1_gpio_irq'', [])"
proof -
  let ?c = "RpiFastIrq_ctor ''/dev/rp1_gpio_irq'' :: unit RpiFastIrq"
  let ?r = "?c\<lparr>m_fd := 3, m_shared_buf := 4096, m_mmap_size := 8192, m_running := True,
        m_listener_thread := True\<rparr>"
  have att: "attached ?r"
    by (simp add: attached_def holds_handle_def holds_mapping_def nullptr_def MAP_FAILED_def)
  have nr: "\<not> m_running ?c"
    by (simp add: RpiFastIrq_ctor_def)
  have one: "stop ?r = (?c\<lparr>m_mmap_size := 8192\<rparr>, [Thread_join, Sys_munmap 4096 8192, Sys_close 3])"
    using att by (simp add: stop_attached RpiFastIrq_ctor_def)
  have two: "stop (?c\<lparr>m_mmap_size := 8192\<rparr>) = (?c\<lparr>m_mmap_size := 8192\<rparr>, [])"
  proof -
    have "stop (fst (stop ?r)) = (fst (stop ?r), [])"
      using stop_idempotent [where l = ?r and path = "[]"] by blast
    then show ?thesis
      unfolding one by simp
  qed
  have dt: "RpiFastIrq_dtor ?c = (?c, [])"
    using stop_idempotent [where l = ?c and path = "[]"] nr by blast
  show ?thesis
    using att one two nr dt by blast
qed

text \<open>
  C8, as stated: some already-running rejection and some failure to open the handle
  return different values. They never do: \<open>start\<close> returns false in both cases.
\<close>

theorem start_result_counterexample:
  "\<not> (\<exists>(l1 :: unit RpiFastIrq) (l2 :: unit RpiFastIrq) cb1 cb2 env1 env2.
        m_running l1 \<and> \<not> m_running l2 \<and> open_ret env2 < 0
        \<and> fst (start cb1 env1 l1) \<noteq> fst (start cb2 env2 l2))"
proof
  assume "\<exists>(l1 :: unit RpiFastIrq) (l2 :: unit RpiFastIrq) cb1 cb2 env1 env2.
        m_running l1 \<and> \<not> m_running l2 \<and> open_ret env2 < 0
        \<and> fst (start cb1 env1 l1) \<noteq> fst (start cb2 env2 l2)"
  then obtain l1 l2 :: "unit RpiFastIrq" and cb1 cb2 env1 env2
    where r: "m_running l1" and nr: "\<not> m_running l2" and o: "open_ret env2 < 0"
      and ne: "fst (start cb1 env1 l1) \<noteq> fst (start cb2 env2 l2)"
    by blast
  have "fst (start cb1 env1 l1) = False"
    unfolding start_def by (simp add: start_with_running [OF r])
  moreover have "fst (start cb2 env2 l2) = False"
    unfolding start_def by (simp add: start_with_open_fails [OF nr o])
  ultimately show False
    using ne by simp
qed

text \<open>
  C8, amended. \<open>start\<close> returns the same value, false, when the listener is already
  running and when the handle cannot be opened; what tells the two apart is the message
  on \<open>std::cerr\<close>: "Already running." in the first case, "Failed to open device: ..."
  (after the attempt to open) in the second.
\<close>

theorem start_failures_differ_in_message:
  assumes "m_running l1" and "\<not> m_running l2" and "open_ret env2 < 0"
  shows "fst (start cb1 env1 l1) = False \<and> fst (start cb2 env2 l2) = False
     \<and> snd (snd (start cb1 env1 l1)) = [Cerr Already_running]
     \<and> snd (snd (start cb2 env2 l2)) =
         [Sys_open (m_device_path l2) O_RDWR, Cerr (Open_failed (m_device_path l2))]"
  unfolding start_def
  by (simp add: start_with_running [OF assms(1)] start_with_open_fails [OF assms(2,3)])

theorem start_failures_differ_in_message_witness:
  "m_running ((RpiFastIrq_ctor ''/dev/rp1_gpio_irq'' :: unit RpiFastIrq)
      \<lparr>m_fd := 3, m_shared_buf := 4096, m_running := True, m_listener_thread := True\<rparr>)
   \<and> \<not> m_running (RpiFastIrq_ctor ''/dev/rp1_gpio_irq'' :: unit RpiFastIrq)
   \<and> open_ret \<lparr>open_ret = - 1, page_size = 4096, mmap_ret = 0\<rparr> < 0
   \<and> fst (start None \<lparr>open_ret = 4, page_size = 4096, mmap_ret = 8192\<rparr>
        ((RpiFastIrq_ctor ''/dev/rp1_gpio_irq'' :: unit RpiFastIrq)
          \<lparr>m_fd := 3, m_shared_buf := 4096, m_running := True, m_listener_thread := True\<rparr>)) =
       fst (start None \<lparr>open_ret = - 1, page_size = 4096, mmap_ret = 0\<rparr>
        (RpiFastIrq_ctor ''/dev/rp1_gpio_irq'' :: unit RpiFastIrq))
   \<and> snd (snd (start None \<lparr>open_ret = 4, page_size = 4096, mmap_ret = 8192\<rparr>
        ((RpiFastIrq_ctor ''/dev/rp1_gpio_irq'' :: unit RpiFastIrq)
          \<lparr>m_fd := 3, m_shared_buf := 4096, m_running := True, m_listener_thread := True\<rparr>))) =
       [Cerr Already_running]
   \<and> snd (snd (start None \<lparr>open_ret = - 1, page_size = 4096, mmap_ret = 0\<rparr>
        (RpiFastIrq_ctor ''/dev/rp1_gpio_irq'' :: unit RpiFastIrq))) =
       [Sys_open ''/dev/rp1_gpio_irq'' O_RDWR, Cerr (Open_failed ''/dev/rp1_gpio_irq'')]"
proof -
  let ?c = "RpiFastIrq_ctor ''/dev/rp1_gpio_irq'' :: unit RpiFastIrq"
  let ?r = "?c\<lparr>m_fd := 3, m_shared_buf := 4096, m_running := True, m_listener_thread := True\<rparr>"
  let ?e1 = "\<lparr>open_ret = 4, page_size = 4096, mmap_ret = 8192\<rparr>"
  let ?e2 = "\<lparr>open_ret = - 1, page_size = 4096, mmap_ret = 0\<rparr>"
  have r: "m_running ?r" by simp
  have nr: "\<not> m_running ?c" by (simp add: RpiFastIrq_ctor_def)
  have o: "open_ret ?e2 < 0" by simp
  have p: "m_device_path ?c = ''/dev/rp1_gpio_irq''" by (simp add: RpiFastIrq_ctor_def)
  note t = start_failures_differ_in_message [OF r nr o, of None ?e1 None]
  show ?thesis
    using r nr o t unfolding p by simp
qed

section \<open>The application's queue\<close>

lemma slot_in_range:
  fixes Size c :: "64 word"
  assumes "Size \<noteq> 0"
  shows "unat (c mod Size) < unat Size"
proof -
  have "0 < unat Size"
    using assms by (simp add: unat_gt_0)
  then show ?thesis
    by (simp add: unat_mod)
qed

lemma push_full: "Size \<le> m_head q - m_tail q \<Longrightarrow> push Size item q = (False, q)"
  by (simp add: push_def)

lemma push_room:
  "\<not> Size \<le> m_head q - m_tail q \<Longrightarrow>
     push Size item q =
       (True, q\<lparr>m_data := (m_data q)[unat (m_head q mod Size) := item], m_head := m_head q + 1\<rparr>)"
  by (simp add: push_def Let_def)

lemma pop_empty: "m_tail q = m_head q \<Longrightarrow> pop Size q = (None, q)"
  by (simp add: pop_def)

lemma pop_some:
  "m_tail q \<noteq> m_head q \<Longrightarrow>
     pop Size q = (Some (m_data q ! unat (m_tail q mod Size)), q\<lparr>m_tail := m_tail q + 1\<rparr>)"
  by (simp add: pop_def Let_def)

text \<open>
  C9. For the queue \<open>LockFreeRingBuffer\<close> of \<open>Size\<close> slots: when
  \<open>head - tail \<ge> Size\<close>, \<open>push\<close> returns false and leaves the queue as it was (so the
  callback of Basic_usage drops the record it was given); otherwise \<open>push\<close> returns true,
  the item is in slot \<open>head mod Size\<close>, every other slot is as before, and \<open>head\<close> has
  advanced by one. \<open>pop\<close> returns false on an empty queue (\<open>tail = head\<close>) and leaves
  it as it was; otherwise it returns the item in slot \<open>tail mod Size\<close> and advances
  \<open>tail\<close> by one. Both always return.
\<close>

theorem queue_push_pop:
  assumes "Size \<noteq> 0" and "length (m_data q) = unat Size"
  shows "(Size \<le> m_head q - m_tail q \<longrightarrow> push Size item q = (False, q))
     \<and> (\<not> Size \<le> m_head q - m_tail q \<longrightarrow>
          fst (push Size item q)
          \<and> m_head (snd (push Size item q)) = m_head q + 1
          \<and> m_tail (snd (push Size item q)) = m_tail q
          \<and> length (m_data (snd (push Size item q))) = unat Size
          \<and> m_data (snd (push Size item q)) ! (unat (m_head q) mod unat Size) = item
          \<and> (\<forall>i. i \<noteq> unat (m_head q) mod unat Size \<longrightarrow>
                m_data (snd (push Size item q)) ! i = m_data q ! i))
     \<and> (m_tail q = m_head q \<longrightarrow> pop Size q = (None, q))
     \<and> (m_tail q \<noteq> m_head q \<longrightarrow>
          pop Size q =
            (Some (m_data q ! (unat (m_tail q) mod unat Size)), q\<lparr>m_tail := m_tail q + 1\<rparr>))
     \<and> (1024 \<le> m_head g - m_tail g \<longrightarrow> dispatch my_irq_callback g ev = g)"
proof (intro conjI impI allI)
  assume "Size \<le> m_head q - m_tail q"
  then show "push Size item q = (False, q)"
    by (rule push_full)
next
  assume room: "\<not> Size \<le> m_head q - m_tail q"
  note p = push_room [OF room, of item]
  have slot: "unat (m_head q mod Size) < length (m_data q)"
    using slot_in_range [OF assms(1)] assms(2) by simp
  show "fst (push Size item q)" by (simp add: p)
  show "m_head (snd (push Size item q)) = m_head q + 1" by (simp add: p)
  show "m_tail (snd (push Size item q)) = m_tail q" by (simp add: p)
  show "length (m_data (snd (push Size item q))) = unat Size" by (simp add: p assms(2))
  show "m_data (snd (push Size item q)) ! (unat (m_head q) mod unat Size) = item"
    using slot by (simp add: p unat_mod)
  fix i
  assume "i \<noteq> unat (m_head q) mod unat Size"
  then show "m_data (snd (push Size item q)) ! i = m_data q ! i"
    by (simp add: p unat_mod)
next
  assume "m_tail q = m_head q"
  then show "pop Size q = (None, q)"
    by (rule pop_empty)
next
  assume "m_tail q \<noteq> m_head q"
  then show "pop Size q =
      (Some (m_data q ! (unat (m_tail q) mod unat Size)), q\<lparr>m_tail := m_tail q + 1\<rparr>)"
    by (simp add: pop_some unat_mod)
next
  assume "1024 \<le> m_head g - m_tail g"
  then show "dispatch my_irq_callback g ev = g"
    by (simp add: dispatch_def my_irq_callback_def push_full)
qed

text \<open>
  A queue of four slots: full with head 5 and tail 1, and with room with head 3 and
  tail 1.
\<close>

theorem queue_push_pop_witness:
  "(4 :: 64 word) \<noteq> 0
   \<and> length (m_data \<lparr>m_data = [10, 11, 12, 13 :: nat], m_head = 5, m_tail = 1\<rparr>) = unat (4 :: 64 word)
   \<and> (4 :: 64 word) \<le> m_head \<lparr>m_data = [10, 11, 12, 13 :: nat], m_head = 5, m_tail = 1\<rparr>
        - m_tail \<lparr>m_data = [10, 11, 12, 13 :: nat], m_head = 5, m_tail = 1\<rparr>
   \<and> push 4 99 \<lparr>m_data = [10, 11, 12, 13 :: nat], m_head = 5, m_tail = 1\<rparr> =
       (False, \<lparr>m_data = [10, 11, 12, 13], m_head = 5, m_tail = 1\<rparr>)
   \<and> pop 4 \<lparr>m_data = [10, 11, 12, 13 :: nat], m_head = 5, m_tail = 1\<rparr> =
       (Some 11, \<lparr>m_data = [10, 11, 12, 13], m_head = 5, m_tail = 2\<rparr>)
   \<and> \<not> (4 :: 64 word) \<le> m_head \<lparr>m_data = [10, 11, 12, 13 :: nat], m_head = 3, m_tail = 1\<rparr>
        - m_tail \<lparr>m_data = [10, 11, 12, 13 :: nat], m_head = 3, m_tail = 1\<rparr>
   \<and> m_data (snd (push 4 99 \<lparr>m_data = [10, 11, 12, 13 :: nat], m_head = 3, m_tail = 1\<rparr>)) ! 3 = 99
   \<and> m_head (snd (push 4 99 \<lparr>m_data = [10, 11, 12, 13 :: nat], m_head = 3, m_tail = 1\<rparr>)) = 4
   \<and> pop 4 \<lparr>m_data = [10, 11, 12, 13 :: nat], m_head = 7, m_tail = 7\<rparr> =
       (None, \<lparr>m_data = [10, 11, 12, 13], m_head = 7, m_tail = 7\<rparr>)"
proof -
  let ?full = "\<lparr>m_data = [10, 11, 12, 13 :: nat], m_head = 5, m_tail = 1 :: 64 word\<rparr>"
  let ?room = "\<lparr>m_data = [10, 11, 12, 13 :: nat], m_head = 3, m_tail = 1 :: 64 word\<rparr>"
  let ?empty = "\<lparr>m_data = [10, 11, 12, 13 :: nat], m_head = 7, m_tail = 7 :: 64 word\<rparr>"
  have nz: "(4 :: 64 word) \<noteq> 0" by simp
  have len: "length (m_data ?full) = unat (4 :: 64 word)"
    "length (m_data ?room) = unat (4 :: 64 word)" "length (m_data ?empty) = unat (4 :: 64 word)"
    by simp_all
  have f: "(4 :: 64 word) \<le> m_head ?full - m_tail ?full" by simp
  have r: "\<not> (4 :: 64 word) \<le> m_head ?room - m_tail ?room" by simp
  note tf = queue_push_pop [OF nz len(1), where item = 99]
  note tr = queue_push_pop [OF nz len(2), where item = 99]
  note te = queue_push_pop [OF nz len(3), where item = 99]
  have a: "push 4 99 ?full = (False, ?full)" using tf f by blast
  have "m_tail ?full \<noteq> m_head ?full" by simp
  then have "pop 4 ?full =
      (Some (m_data ?full ! (unat (m_tail ?full) mod unat (4 :: 64 word))),
       ?full\<lparr>m_tail := m_tail ?full + 1\<rparr>)"
    using tf by blast
  then have b: "pop 4 ?full = (Some 11, \<lparr>m_data = [10, 11, 12, 13], m_head = 5, m_tail = 2\<rparr>)"
    by simp
  have "m_data (snd (push 4 99 ?room)) ! (unat (m_head ?room) mod unat (4 :: 64 word)) = 99"
    using tr r by blast
  then have c: "m_data (snd (push 4 99 ?room)) ! 3 = 99" by simp
  have "m_head (snd (push 4 99 ?room)) = m_head ?room + 1" using tr r by blast
  then have d: "m_head (snd (push 4 99 ?room)) = 4" by simp
  have e: "pop 4 ?empty = (None, ?empty)" using te by simp
  show ?thesis
    using nz len(1) f a b r c d e by blast
qed

section \<open>The empty callback\<close>

lemma dispatch_None: "dispatch None s ev = s"
  by (simp add: dispatch_def)

lemma foldl_dispatch_None: "foldl (dispatch None) s xs = s"
  by (induction xs) (simp_all add: dispatch_None)

lemma drain_loop_None: "drain_loop None evs t h s = (h, s)"
  by (simp add: drain_loop_eq foldl_dispatch_None)

lemma listener_loop_None_app: "th_app (listener_loop None es st) = th_app st"
proof (induction es arbitrary: st)
  case Nil
  then show ?case by simp
next
  case (Cons e es)
  show ?case
  proof (cases e)
    case (Interrupt ts state)
    then show ?thesis by (simp add: Cons.IH)
  next
    case (Poll_returns ret errno pollin)
    then show ?thesis
      by (simp add: Cons.IH drain_pass_app foldl_dispatch_None)
  qed
qed

text \<open>
  Everything of the thread's state but the application's part: it evolves the same
  way whatever the callback is.
\<close>

lemma listener_loop_view:
  assumes "th_kernel st = th_kernel st'" and "th_local_tail st = th_local_tail st'"
    and "th_cerr st = th_cerr st'"
  shows "th_kernel (listener_loop cb es st) = th_kernel (listener_loop cb' es st')
     \<and> th_local_tail (listener_loop cb es st) = th_local_tail (listener_loop cb' es st')
     \<and> th_cerr (listener_loop cb es st) = th_cerr (listener_loop cb' es st')"
  using assms
proof (induction es arbitrary: st st')
  case Nil
  then show ?case by simp
next
  case (Cons e es)
  show ?case
  proof (cases e)
    case (Interrupt ts state)
    have "th_kernel (st\<lparr>th_kernel := gpio_isr ts state (th_kernel st)\<rparr>) =
          th_kernel (st'\<lparr>th_kernel := gpio_isr ts state (th_kernel st')\<rparr>)"
      using Cons.prems by simp
    then show ?thesis
      using Cons.IH [of "st\<lparr>th_kernel := gpio_isr ts state (th_kernel st)\<rparr>"
          "st'\<lparr>th_kernel := gpio_isr ts state (th_kernel st')\<rparr>"] Cons.prems Interrupt
      by simp
  next
    case (Poll_returns ret errno pollin)
    have d: "th_kernel (drain_pass cb st) = th_kernel (drain_pass cb' st')"
      "th_local_tail (drain_pass cb st) = th_local_tail (drain_pass cb' st')"
      "th_cerr (drain_pass cb st) = th_cerr (drain_pass cb' st')"
      using Cons.prems by (simp_all add: drain_pass_kernel drain_pass_local_tail drain_pass_cerr)
    show ?thesis
      using Cons.IH [OF d] Cons.IH [OF Cons.prems] Cons.prems Poll_returns
      by simp
  qed
qed

lemma bench_loop_None_app: "b_app (bench_listener_loop None es st) = b_app st"
proof (induction es arbitrary: st)
  case Nil
  then show ?case by simp
next
  case (Cons e es)
  then show ?case
    by (cases e) (simp add: Let_def dispatch_None)
qed

lemma bench_loop_view:
  assumes "b_reads st = b_reads st'" and "b_cerr st = b_cerr st'"
  shows "b_reads (bench_listener_loop cb es st) = b_reads (bench_listener_loop cb' es st')
     \<and> b_cerr (bench_listener_loop cb es st) = b_cerr (bench_listener_loop cb' es st')"
  using assms
proof (induction es arbitrary: st st')
  case Nil
  then show ?case by simp
next
  case (Cons e es)
  obtain ret errno pollin bytes_read event_data
    where e: "e = Bench_wake ret errno pollin bytes_read event_data"
    by (cases e)
  let ?s1 = "st\<lparr>b_reads := b_reads st + 1\<rparr>" and ?s1' = "st'\<lparr>b_reads := b_reads st' + 1\<rparr>"
  note ih = Cons.IH
  have a: "b_reads (bench_listener_loop cb es st) = b_reads (bench_listener_loop cb' es st')
     \<and> b_cerr (bench_listener_loop cb es st) = b_cerr (bench_listener_loop cb' es st')"
    by (rule ih [OF Cons.prems])
  have b: "b_reads (bench_listener_loop cb es (?s1\<lparr>b_app := x\<rparr>)) =
           b_reads (bench_listener_loop cb' es (?s1'\<lparr>b_app := y\<rparr>))
     \<and> b_cerr (bench_listener_loop cb es (?s1\<lparr>b_app := x\<rparr>)) =
           b_cerr (bench_listener_loop cb' es (?s1'\<lparr>b_app := y\<rparr>))" for x y
    by (rule ih) (use Cons.prems in simp_all)
  have c: "b_reads (bench_listener_loop cb es (?s1\<lparr>b_cerr := b_cerr ?s1 @ [m]\<rparr>)) =
           b_reads (bench_listener_loop cb' es (?s1'\<lparr>b_cerr := b_cerr ?s1' @ [m]\<rparr>))
     \<and> b_cerr (bench_listener_loop cb es (?s1\<lparr>b_cerr := b_cerr ?s1 @ [m]\<rparr>)) =
           b_cerr (bench_listener_loop cb' es (?s1'\<lparr>b_cerr := b_cerr ?s1' @ [m]\<rparr>))" for m
    by (rule ih) (use Cons.prems in simp_all)
  show ?case
    using a b c Cons.prems unfolding e by (simp add: Let_def)
qed

text \<open>
  C10. \<open>start\<close> takes an empty callback like any other, and every dispatch is guarded
  by \<^verbatim>\<open>if (m_callback)\<close>: with an empty callback the drain loop still runs to the
  observed head and the pass still stores that head to \<open>tail\<close>; the thread's
  \<open>local_tail\<close>, the shared memory and \<open>std::cerr\<close> end up as with any real callback,
  and the application's state is untouched. The read-based listener of Benchmark
  likewise issues the same reads and leaves the application's state untouched.
\<close>

theorem empty_callback_skipped:
  "drain_loop None evs T H s = (H, s)
   \<and> fst (drain_loop None evs T H s) = fst (drain_loop (Some f) evs T H s)
   \<and> th_app (drain_pass None st) = th_app st
   \<and> th_local_tail (drain_pass None st) = head (shared_buf (th_kernel st))
   \<and> tail (shared_buf (th_kernel (drain_pass None st))) = head (shared_buf (th_kernel st))
   \<and> th_kernel (drain_pass None st) = th_kernel (drain_pass (Some f) st)
   \<and> th_local_tail (drain_pass None st) = th_local_tail (drain_pass (Some f) st)
   \<and> th_app (listener_thread_func None sched_ok es k s) = s
   \<and> th_kernel (listener_thread_func None sched_ok es k s) =
       th_kernel (listener_thread_func (Some f) sched_ok es k s)
   \<and> th_local_tail (listener_thread_func None sched_ok es k s) =
       th_local_tail (listener_thread_func (Some f) sched_ok es k s)
   \<and> th_cerr (listener_thread_func None sched_ok es k s) =
       th_cerr (listener_thread_func (Some f) sched_ok es k s)
   \<and> fst (start None env l) = fst (start (Some f) env l)
   \<and> snd (snd (start None env l)) = snd (snd (start (Some f) env l))
   \<and> b_app (bench_listener_loop None bes bst) = b_app bst
   \<and> b_reads (bench_listener_loop None bes bst) = b_reads (bench_listener_loop (Some f) bes bst)
   \<and> b_cerr (bench_listener_loop None bes bst) = b_cerr (bench_listener_loop (Some f) bes bst)"
proof -
  have a: "drain_loop None evs T H s = (H, s)"
    by (rule drain_loop_None)
  have b: "fst (drain_loop None evs T H s) = fst (drain_loop (Some f) evs T H s)"
    by (simp add: drain_loop_eq)
  have c: "th_app (drain_pass None st) = th_app st"
    by (simp add: drain_pass_app foldl_dispatch_None)
  have d: "th_local_tail (drain_pass None st) = head (shared_buf (th_kernel st))"
    "tail (shared_buf (th_kernel (drain_pass None st))) = head (shared_buf (th_kernel st))"
    "th_kernel (drain_pass None st) = th_kernel (drain_pass (Some f) st)"
    "th_local_tail (drain_pass None st) = th_local_tail (drain_pass (Some f) st)"
    by (simp_all add: drain_pass_local_tail drain_pass_kernel)
  have e: "th_app (listener_thread_func None sched_ok es k s) = s"
    by (simp add: listener_thread_func_def Let_def listener_loop_None_app)
  have v: "th_kernel (listener_thread_func None sched_ok es k s) =
       th_kernel (listener_thread_func (Some f) sched_ok es k s)
   \<and> th_local_tail (listener_thread_func None sched_ok es k s) =
       th_local_tail (listener_thread_func (Some f) sched_ok es k s)
   \<and> th_cerr (listener_thread_func None sched_ok es k s) =
       th_cerr (listener_thread_func (Some f) sched_ok es k s)"
    unfolding listener_thread_func_def Let_def
    by (rule listener_loop_view) simp_all
  have g: "fst (start None env l) = fst (start (Some f) env l)"
    "snd (snd (start None env l)) = snd (snd (start (Some f) env l))"
    by (simp_all add: start_def start_with_def Let_def)
  have h: "b_app (bench_listener_loop None bes bst) = b_app bst"
    by (rule bench_loop_None_app)
  have i: "b_reads (bench_listener_loop None bes bst) = b_reads (bench_listener_loop (Some f) bes bst)
     \<and> b_cerr (bench_listener_loop None bes bst) = b_cerr (bench_listener_loop (Some f) bes bst)"
    by (rule bench_loop_view) simp_all
  show ?thesis
    using a b c d e v g h i by blast
qed

section \<open>Who writes which cursor\<close>

lemma gpio_isr_v1_head:
  "k_head (gpio_isr_v1 ts state k) = (k_head k + 1) mod word_of_nat KBUF_SIZE"
  by (simp add: gpio_isr_v1_def Let_def)

lemma gpio_isr_v1_tail:
  "k_tail (gpio_isr_v1 ts state k) =
     (if (k_head k + 1) mod word_of_nat KBUF_SIZE = k_tail k
      then (k_tail k + 1) mod word_of_nat KBUF_SIZE else k_tail k)"
  by (simp add: gpio_isr_v1_def Let_def)

lemma isr_run_v1_snoc: "isr_run_v1 (ins @ [(ts, state)]) k = gpio_isr_v1 ts state (isr_run_v1 ins k)"
  by (simp add: isr_run_v1_def)

lemma small_index:
  assumes "n < KBUF_SIZE"
  shows "(word_of_nat n :: u32) mod word_of_nat KBUF_SIZE = word_of_nat n"
    and "n \<noteq> 0 \<Longrightarrow> (word_of_nat n :: u32) \<noteq> 0"
proof -
  have u: "unat (word_of_nat n :: u32) = n"
    using assms by (simp add: unat_of_nat KBUF_SIZE_def)
  have "unat ((word_of_nat n :: u32) mod word_of_nat KBUF_SIZE) = n mod 256"
    by (simp add: unat_mod u KBUF_SIZE_def)
  also have "\<dots> = n"
    using assms by (simp add: KBUF_SIZE_def)
  finally have "unat ((word_of_nat n :: u32) mod word_of_nat KBUF_SIZE) = unat (word_of_nat n :: u32)"
    using u by simp
  then show "(word_of_nat n :: u32) mod word_of_nat KBUF_SIZE = word_of_nat n"
    by (rule word_unat_eq_iff [THEN iffD2])
  show "(word_of_nat n :: u32) \<noteq> 0" if "n \<noteq> 0"
    using u that by (metis unat_0)
qed

lemma isr_run_v1_cursors:
  assumes "n < KBUF_SIZE"
  shows "k_head (isr_run_v1 (replicate n x) rpi_fast_irq_init_v1) = word_of_nat n
     \<and> k_tail (isr_run_v1 (replicate n x) rpi_fast_irq_init_v1) = 0"
  using assms
proof (induction n)
  case 0
  then show ?case
    by (simp add: isr_run_v1_def rpi_fast_irq_init_v1_def)
next
  case (Suc n)
  obtain ts state where x: "x = (ts, state)" by (cases x)
  have r: "replicate (Suc n) x = replicate n x @ [(ts, state)]"
    by (simp add: replicate_append_same x)
  have ih: "k_head (isr_run_v1 (replicate n x) rpi_fast_irq_init_v1) = word_of_nat n"
    "k_tail (isr_run_v1 (replicate n x) rpi_fast_irq_init_v1) = 0"
    using Suc by simp_all
  have s: "(word_of_nat n + 1 :: u32) = word_of_nat (Suc n)"
    by simp
  show ?case
    unfolding r isr_run_v1_snoc gpio_isr_v1_head gpio_isr_v1_tail ih s
    using small_index [OF Suc.prems] by simp
qed

lemma listener_loop_polls_head:
  "head (shared_buf (th_kernel
      (listener_loop cb (map (\<lambda>(ret, errno, pollin). Poll_returns ret errno pollin) ps) st))) =
   head (shared_buf (th_kernel st))"
proof (induction ps arbitrary: st)
  case Nil
  then show ?case by simp
next
  case (Cons p ps)
  obtain ret errno pollin where p: "p = (ret, errno, pollin)"
    by (cases p)
  show ?case
    unfolding p by (simp add: Cons.IH drain_pass_kernel)
qed

text \<open>
  C3, as stated: no producer step writes the tail cursor. In the spinlock-protected
  module the 256th interrupt on a freshly loaded module (nothing read in between) finds
  the ring full and moves \<open>k_tail\<close> from 0 to 1.
\<close>

theorem producer_writes_tail_counterexample:
  "k_tail (isr_run_v1 (replicate 255 (0, 0)) rpi_fast_irq_init_v1) = 0
   \<and> k_tail (gpio_isr_v1 0 0 (isr_run_v1 (replicate 255 (0, 0)) rpi_fast_irq_init_v1)) = 1"
proof -
  have n: "(255 :: nat) < KBUF_SIZE"
    by (simp add: KBUF_SIZE_def)
  note c = isr_run_v1_cursors [OF n, of "(0, 0)"]
  have "(255 + 1 :: u32) mod word_of_nat KBUF_SIZE = 0"
    by (simp add: KBUF_SIZE_def)
  moreover have "(0 + 1 :: u32) mod word_of_nat KBUF_SIZE = 1"
    by (simp add: KBUF_SIZE_def)
  ultimately show ?thesis
    using c by (simp add: gpio_isr_v1_tail)
qed

text \<open>
  C3, amended. In the zero-copy module with its listener each cursor has one writer:
  \<open>gpio_isr\<close> leaves \<open>tail\<close> as it is, and the listener (its resynchronisation, a drain
  pass, the whole thread over any run of wake-ups) leaves \<open>head\<close> as it is. In the
  spinlock-protected module \<open>dev_read\<close> leaves \<open>k_head\<close> as it is, while \<open>gpio_isr\<close>,
  holding \<open>event_lock\<close>, advances \<open>k_tail\<close> by one slot exactly when its write makes
  \<open>k_head\<close> equal to \<open>k_tail\<close>, and leaves it alone otherwise.
\<close>

theorem single_writer_amended:
  "tail (shared_buf (gpio_isr ts state k)) = tail (shared_buf k)
   \<and> tail (shared_buf (isr_run ins k)) = tail (shared_buf k)
   \<and> head (shared_buf (th_kernel (drain_pass cb st))) = head (shared_buf (th_kernel st))
   \<and> events (shared_buf (th_kernel (drain_pass cb st))) = events (shared_buf (th_kernel st))
   \<and> head (shared_buf (th_kernel (listener_thread_func cb sched_ok [] k s))) = head (shared_buf k)
   \<and> head (shared_buf (th_kernel (listener_thread_func cb sched_ok
        (map (\<lambda>(ret, errno, pollin). Poll_returns ret errno pollin) ps) k s))) = head (shared_buf k)
   \<and> k_head (snd (dev_read len copy_err k1)) = k_head k1
   \<and> k_tail (gpio_isr_v1 ts state k1) =
       (if (k_head k1 + 1) mod word_of_nat KBUF_SIZE = k_tail k1
        then (k_tail k1 + 1) mod word_of_nat KBUF_SIZE else k_tail k1)"
proof -
  have a: "head (shared_buf (th_kernel (drain_pass cb st))) = head (shared_buf (th_kernel st))"
    "events (shared_buf (th_kernel (drain_pass cb st))) = events (shared_buf (th_kernel st))"
    for st :: "'a thread_state"
    by (simp_all add: drain_pass_kernel)
  have b: "head (shared_buf (th_kernel (listener_thread_func cb sched_ok [] k s))) = head (shared_buf k)"
    by (simp add: listener_thread_func_def Let_def)
  have c: "head (shared_buf (th_kernel (listener_thread_func cb sched_ok
        (map (\<lambda>(ret, errno, pollin). Poll_returns ret errno pollin) ps) k s))) = head (shared_buf k)"
    by (simp add: listener_thread_func_def Let_def listener_loop_polls_head)
  have d: "k_head (snd (dev_read len copy_err k1)) = k_head k1"
    by (simp add: dev_read_def Let_def)
  show ?thesis
    using a b c d gpio_isr_tail [of ts state k] isr_run_tail [of ins k]
      gpio_isr_v1_tail [of ts state k1]
    by blast
qed

section \<open>Resynchronisation at thread start\<close>

lemma listener_loop_interrupts:
  "listener_loop cb (map (\<lambda>(ts, state). Interrupt ts state) ins @ es) st =
     listener_loop cb es (st\<lparr>th_kernel := isr_run ins (th_kernel st)\<rparr>)"
proof (induction ins arbitrary: st)
  case Nil
  then show ?case by (simp add: isr_run_def)
next
  case (Cons i ins)
  obtain ts state where i: "i = (ts, state)" by (cases i)
  show ?case
    unfolding i by (simp add: Cons.IH isr_run_def)
qed

lemma listener_loop_ready:
  "0 < ret \<Longrightarrow> listener_loop cb [Poll_returns ret errno True] st = drain_pass cb st"
  by simp

text \<open>
  The listener of version 2.0.0 drops the backlog: whatever \<open>k\<close> holds when the thread
  starts, its first drain delivers exactly the records published after that.
\<close>

lemma listener_first_drain:
  assumes "wf_buf (shared_buf k)" and "length ins \<le> KBUF_SIZE" and "0 < ret"
  shows "th_app (listener_thread_func cb sched_ok
            (map (\<lambda>(ts, state). Interrupt ts state) ins @ [Poll_returns ret errno True]) k s) =
         foldl (dispatch cb) s (published (total_interrupts k) ins)"
proof -
  let ?k1 = "k\<lparr>shared_buf := (shared_buf k)\<lparr>tail := head (shared_buf k)\<rparr>\<rparr>"
  have wf1: "wf_buf (shared_buf ?k1)"
    using assms(1) by (simp add: wf_buf_def)
  have rb: "records_between (events (shared_buf (isr_run ins ?k1))) (head (shared_buf ?k1))
           (head (shared_buf (isr_run ins ?k1))) = published (total_interrupts ?k1) ins"
    by (rule records_between_isr_run [OF wf1 assms(2)])
  show ?thesis
    unfolding listener_thread_func_def Let_def listener_loop_interrupts
      listener_loop_ready [OF assms(3)] drain_pass_app
    using rb by simp
qed

text \<open>
  C2. Whatever the shared buffer holds when the listener thread starts (any head, any
  tail behind it, any records), the thread first sets its \<open>local_tail\<close> to the current
  head and stores it to \<open>tail\<close>. So its first drain hands the callback none of the
  records that were there: with nothing published since, the callback is not called at
  all, and with records published since, it is called on exactly those.
\<close>

theorem listener_drops_backlog:
  assumes "wf_buf (shared_buf k)" and "length ins \<le> KBUF_SIZE" and "0 < ret"
  shows "th_local_tail (listener_thread_func cb sched_ok [] k s) = head (shared_buf k)
     \<and> tail (shared_buf (th_kernel (listener_thread_func cb sched_ok [] k s))) = head (shared_buf k)
     \<and> th_app (listener_thread_func cb sched_ok [Poll_returns ret errno True] k s) = s
     \<and> th_app (listener_thread_func record_cb sched_ok [Poll_returns ret errno True] k []) = []
     \<and> th_app (listener_thread_func cb sched_ok
          (map (\<lambda>(ts, state). Interrupt ts state) ins @ [Poll_returns ret errno True]) k s) =
         foldl (dispatch cb) s (published (total_interrupts k) ins)
     \<and> th_app (listener_thread_func record_cb sched_ok
          (map (\<lambda>(ts, state). Interrupt ts state) ins @ [Poll_returns ret errno True]) k []) =
         published (total_interrupts k) ins"
proof -
  have a: "th_local_tail (listener_thread_func cb sched_ok [] k s) = head (shared_buf k)"
    "tail (shared_buf (th_kernel (listener_thread_func cb sched_ok [] k s))) = head (shared_buf k)"
    by (simp_all add: listener_thread_func_def Let_def)
  have b: "th_app (listener_thread_func c sched_ok [Poll_returns ret errno True] k x) = x"
    for c :: "'b IrqCallback" and x
    unfolding listener_thread_func_def Let_def listener_loop_ready [OF assms(3)] drain_pass_app
    by (simp add: records_between_empty)
  have c: "th_app (listener_thread_func c sched_ok
          (map (\<lambda>(ts, state). Interrupt ts state) ins @ [Poll_returns ret errno True]) k x) =
         foldl (dispatch c) x (published (total_interrupts k) ins)"
    for c :: "'b IrqCallback" and x
    by (rule listener_first_drain [OF assms])
  have d: "th_app (listener_thread_func record_cb sched_ok
          (map (\<lambda>(ts, state). Interrupt ts state) ins @ [Poll_returns ret errno True]) k []) =
         published (total_interrupts k) ins"
    by (simp add: c foldl_record_cb)
  show ?thesis
    using a b [of cb s] b [of record_cb "[]"] c [of cb s] d by blast
qed

text \<open>
  Three interrupts fire on a fresh module before the thread starts; its first drain
  delivers nothing, and after a fourth interrupt it delivers that fourth record only.
\<close>

theorem listener_drops_backlog_witness:
  "wf_buf (shared_buf (isr_run [(10, 1), (20, 0), (30, 1)] rpi_fast_irq_init))
   \<and> length [(40 :: u64, 0 :: u32)] \<le> KBUF_SIZE
   \<and> (0 :: int) < 1
   \<and> head (shared_buf (isr_run [(10, 1), (20, 0), (30, 1)] rpi_fast_irq_init)) = 3
   \<and> th_local_tail (listener_thread_func record_cb True []
        (isr_run [(10, 1), (20, 0), (30, 1)] rpi_fast_irq_init) []) = 3
   \<and> th_app (listener_thread_func record_cb True [Poll_returns 1 0 True]
        (isr_run [(10, 1), (20, 0), (30, 1)] rpi_fast_irq_init) []) = []
   \<and> th_app (listener_thread_func record_cb True [Interrupt 40 0, Poll_returns 1 0 True]
        (isr_run [(10, 1), (20, 0), (30, 1)] rpi_fast_irq_init) []) =
       [\<lparr>timestamp_ns = 40, event_counter = 4, pin_state = 0\<rparr>]"
proof -
  let ?k = "isr_run [(10, 1), (20, 0), (30, 1)] rpi_fast_irq_init"
  let ?ins = "[(40 :: u64, 0 :: u32)]"
  have wf: "wf_buf (shared_buf ?k)"
    by (simp add: isr_run_wf init_wf)
  have len: "length ?ins \<le> KBUF_SIZE"
    by (simp add: KBUF_SIZE_def)
  have ret: "(0 :: int) < 1"
    by simp
  have h: "head (shared_buf ?k) = 3"
    by (simp add: isr_run_head rpi_fast_irq_init_def)
  have n: "total_interrupts ?k = 3"
    by (simp add: isr_run_total rpi_fast_irq_init_def)
  have pub: "published 3 ?ins = [\<lparr>timestamp_ns = 40, event_counter = 4, pin_state = 0\<rparr>]"
    by (simp add: published_def)
  note t = listener_drops_backlog [OF wf len ret, of record_cb True "[]" 0]
  have a: "th_local_tail (listener_thread_func record_cb True [] ?k []) = 3"
    using t h by simp
  have b: "th_app (listener_thread_func record_cb True [Poll_returns 1 0 True] ?k []) = []"
    using t by blast
  have "th_app (listener_thread_func record_cb True
          (map (\<lambda>(ts, state). Interrupt ts state) ?ins @ [Poll_returns 1 0 True]) ?k []) =
         published (total_interrupts ?k) ?ins"
    using t by blast
  then have c: "th_app (listener_thread_func record_cb True
          [Interrupt 40 0, Poll_returns 1 0 True] ?k []) =
       [\<lparr>timestamp_ns = 40, event_counter = 4, pin_state = 0\<rparr>]"
    unfolding n pub by simp
  show ?thesis
    using wf len ret h a b c by blast
qed

text \<open>
  The copy in CountsPerSecond_Plot starts its \<open>local_tail\<close> at 0 instead and stores
  nothing to \<open>tail\<close> before the loop.
\<close>

lemma plot_listener_starts_at_zero:
  "th_local_tail (listener_thread_func_plot cb sched_ok [] k s) = 0
   \<and> th_kernel (listener_thread_func_plot cb sched_ok [] k s) = k"
  by (simp add: listener_thread_func_plot_def)

section \<open>Declared layouts\<close>

text \<open>
  C7. The claim: the kernel's and the library's \<open>GpioIrqEvent\<close> and
  \<open>SharedRingBuffer\<close> have the same members at the same offsets with the same widths.
  As declared under kernel_module/, the kernel's event struct has no \<open>pin_state\<close>:
  the library's member at offset 12 has no counterpart, and the kernel's struct ends in
  four bytes of padding there. As declared in CountsPerSecond_Plot, the library's ring
  has no \<open>events\<close> and is 8 bytes long, against the kernel's 4104. The declarations
  of the earlier zero-copy module and of CountsPerSecond/RpiFastIrq.hpp do agree.
\<close>

theorem declared_layouts:
  "place_fields 0 GpioIrqEvent_kernel_module =
     [(''timestamp_ns'', 0, 8), (''event_counter'', 8, 4)]
   \<and> place_fields 0 GpioIrqEvent_hpp =
     [(''timestamp_ns'', 0, 8), (''event_counter'', 8, 4), (''pin_state'', 12, 4)]
   \<and> end_fields 0 GpioIrqEvent_kernel_module = 12
   \<and> sizeof_event GpioIrqEvent_kernel_module = 16
   \<and> sizeof_event GpioIrqEvent_hpp = 16
   \<and> place_members 0 SharedRingBuffer_kernel_module =
     [(''head'', 0, 4), (''tail'', 4, 4), (''events'', 8, 4096)]
   \<and> place_members 0 SharedRingBuffer_plot_hpp = [(''head'', 0, 4), (''tail'', 4, 4)]
   \<and> sizeof_ring SharedRingBuffer_kernel_module = 4104
   \<and> sizeof_ring SharedRingBuffer_plot_hpp = 8
   \<and> place_fields 0 GpioIrqEvent_kernel_earlier = place_fields 0 GpioIrqEvent_hpp
   \<and> place_members 0 SharedRingBuffer_kernel_earlier = place_members 0 SharedRingBuffer_hpp
   \<and> sizeof_ring SharedRingBuffer_kernel_earlier = sizeof_ring SharedRingBuffer_hpp"
  by (simp add: GpioIrqEvent_kernel_module_def GpioIrqEvent_hpp_def GpioIrqEvent_kernel_earlier_def
      SharedRingBuffer_kernel_module_def SharedRingBuffer_plot_hpp_def SharedRingBuffer_hpp_def
      SharedRingBuffer_kernel_earlier_def sizeof_event_def sizeof_ring_def round_up_def Let_def)

end
